theory Spec2Isabelle
  imports Main
begin

section \<open>Shared value types\<close>

text \<open>
  A Go \<open>interface{}\<close> value as it arrives in a parameter mapping: the nil interface,
  a string, a \<open>[]interface{}\<close>, or a value of any other dynamic type (carrying the name
  that \<open>reflect.TypeOf(v).String()\<close> prints).
\<close>

datatype jvalue = JNil | JString string | JList "jvalue list" | JOther string

text \<open>
  Errors built with \<open>github.com/pkg/errors\<close>: \<open>New m\<close> is a leaf error with message
  \<open>m\<close> (also used for errors of foreign packages, which only contribute their message),
  \<open>Wrap cause m\<close> is \<open>errors.Wrap(cause, m)\<close>.
\<close>

datatype error = New string | Wrap error string

fun Error :: "error \<Rightarrow> string" where
  "Error (New m) = m"
| "Error (Wrap cause m) = m @ '': '' @ Error cause"

text \<open>
  Errors returned by the job service client: \<open>*common_http.Error{Code, Message}\<close>, or an
  error of any other type.
\<close>

datatype client_error = HTTPError int string | OtherError string

definition StatusNotFound :: int where "StatusNotFound = 404"
definition StatusConflict :: int where "StatusConflict = 409"
definition StatusPreconditionFailed :: int where "StatusPreconditionFailed = 412"
definition StatusInternalServerError :: int where "StatusInternalServerError = 500"

section \<open>Admin job requests (core/api/models/admin\_job.go)\<close>

definition ScheduleHourly :: string where "ScheduleHourly = ''Hourly''"
definition ScheduleDaily :: string where "ScheduleDaily = ''Daily''"
definition ScheduleWeekly :: string where "ScheduleWeekly = ''Weekly''"
definition ScheduleCustom :: string where "ScheduleCustom = ''Custom''"
definition ScheduleManual :: string where "ScheduleManual = ''Manual''"
definition ScheduleNone :: string where "ScheduleNone = ''None''"

text \<open>
  Modelled from the spec: the job kinds of package \<open>common/job\<close> (\<open>generic\<close> and
  \<open>periodic\<close>) and its stop action, whose declarations are not part of the sources at
  hand.
\<close>

definition JobKindGeneric :: string where "JobKindGeneric = ''generic''"
definition JobKindPeriodic :: string where "JobKindPeriodic = ''periodic''"
definition JobActionStop :: string where "JobActionStop = ''stop''"

record ScheduleParam =
  sp_Type :: string
  sp_Cron :: string

record AdminJobReq =
  ajr_Schedule :: "ScheduleParam option"
  ajr_Name :: string
  ajr_Status :: string
  ajr_ID :: int
  ajr_Parameters :: "string \<rightharpoonup> jvalue"

record JobData =
  jd_Name :: string
  jd_Parameters :: "string \<rightharpoonup> jvalue"
  jd_JobKind :: string
  jd_Cron :: string
  jd_IsUnique :: bool
  jd_StatusHook :: string

text \<open>
  \<open>JobKind\<close> dereferences \<open>ar.Schedule\<close>; on a nil schedule the Go code panics, which
  is the value \<open>None\<close> here.
\<close>

definition JobKind :: "AdminJobReq \<Rightarrow> string option" where
  "JobKind ar =
     (case ajr_Schedule ar of
        None \<Rightarrow> None
      | Some sp \<Rightarrow>
          if sp_Type sp = ScheduleHourly \<or> sp_Type sp = ScheduleDaily
             \<or> sp_Type sp = ScheduleWeekly \<or> sp_Type sp = ScheduleCustom
          then Some JobKindPeriodic
          else if sp_Type sp = ScheduleManual then Some JobKindGeneric
          else Some [])"

definition IsPeriodic :: "AdminJobReq \<Rightarrow> bool option" where
  "IsPeriodic ar = map_option (\<lambda>k. k = JobKindPeriodic) (JobKind ar)"

text \<open>
  \<open>CronString\<close> marshals the schedule with \<open>encoding/json\<close>; the marshaller is a
  parameter (\<open>None\<close> is a marshalling error, which yields the empty string).
\<close>

definition CronString :: "(ScheduleParam option \<Rightarrow> string option) \<Rightarrow> AdminJobReq \<Rightarrow> string" where
  "CronString marshal ar = (case marshal (ajr_Schedule ar) of None \<Rightarrow> [] | Some s \<Rightarrow> s)"

fun digits :: "nat \<Rightarrow> string" where
  "digits n =
     (if n < 10 then [''0123456789'' ! n]
      else digits (n div 10) @ [''0123456789'' ! (n mod 10)])"

declare digits.simps [simp del]

definition Itoa :: "int \<Rightarrow> string" where
  "Itoa i = (if i < 0 then CHR ''-'' # digits (nat (- i)) else digits (nat i))"

definition ToJob :: "string \<Rightarrow> AdminJobReq \<Rightarrow> JobData option" where
  "ToJob coreURL ar =
     (case JobKind ar of
        None \<Rightarrow> None
      | Some kind \<Rightarrow>
          Some \<lparr> jd_Name = ajr_Name ar,
                 jd_Parameters = ajr_Parameters ar,
                 jd_JobKind = kind,
                 jd_Cron = sp_Cron (the (ajr_Schedule ar)),
                 jd_IsUnique = True,
                 jd_StatusHook = coreURL @ ''/service/notifications/jobs/adminjob/'' @ Itoa (ajr_ID ar) \<rparr>)"

text \<open>
  \<open>Valid\<close> only accepts the six schedule types; a cron expression is required for the
  four periodic ones. The cron parser (\<open>robfig/cron\<close>) is a parameter. The result is the
  list of validation errors set (key of each).
\<close>

definition Valid :: "(string \<Rightarrow> bool) \<Rightarrow> AdminJobReq \<Rightarrow> string list" where
  "Valid cron_parses ar =
     (case ajr_Schedule ar of
        None \<Rightarrow> []
      | Some sp \<Rightarrow>
          if sp_Type sp = ScheduleHourly \<or> sp_Type sp = ScheduleDaily
             \<or> sp_Type sp = ScheduleWeekly \<or> sp_Type sp = ScheduleCustom
          then (if cron_parses (sp_Cron sp) then [] else [''cron''])
          else if sp_Type sp = ScheduleManual \<or> sp_Type sp = ScheduleNone then []
          else [''kind''])"

section \<open>The job record store and the job service\<close>

record AdminJob =
  aj_ID :: int
  aj_Name :: string
  aj_Kind :: string
  aj_Cron :: string
  aj_UUID :: string
  aj_Status :: string

datatype runner_call = PostAction string string | SubmitJob JobData | GetJobLog string

text \<open>
  The state the handlers act on: the admin job table with its id sequence, and the trace
  of the calls made to the job service.
\<close>

record world =
  jobs :: "AdminJob list"
  next_id :: int
  runner_calls :: "runner_call list"

text \<open>
  Modelled from the spec: the record store of package \<open>common/dao\<close> (create, query by
  name and kind, get by id, delete, set the runner's UUID), whose code is not part of the
  sources at hand. Whether a call fails is decided by the environment below; a failed call
  leaves the table as it was.
\<close>

definition GetAdminJobs :: "string \<Rightarrow> string \<Rightarrow> world \<Rightarrow> AdminJob list" where
  "GetAdminJobs name kind w = filter (\<lambda>j. aj_Name j = name \<and> aj_Kind j = kind) (jobs w)"

definition GetAdminJob :: "int \<Rightarrow> world \<Rightarrow> AdminJob option" where
  "GetAdminJob i w = find (\<lambda>j. aj_ID j = i) (jobs w)"

definition AddAdminJob :: "string \<Rightarrow> string \<Rightarrow> string \<Rightarrow> world \<Rightarrow> int \<times> world" where
  "AddAdminJob name kind cron w =
     (next_id w,
      w \<lparr> jobs := jobs w @ [\<lparr> aj_ID = next_id w, aj_Name = name, aj_Kind = kind,
                              aj_Cron = cron, aj_UUID = [], aj_Status = [] \<rparr>],
          next_id := next_id w + 1 \<rparr>)"

definition DeleteAdminJob :: "int \<Rightarrow> world \<Rightarrow> world" where
  "DeleteAdminJob i w = w \<lparr> jobs := filter (\<lambda>j. aj_ID j \<noteq> i) (jobs w) \<rparr>"

definition SetAdminJobUUID :: "int \<Rightarrow> string \<Rightarrow> world \<Rightarrow> world" where
  "SetAdminJobUUID i uuid w =
     w \<lparr> jobs := map (\<lambda>j. if aj_ID j = i then j \<lparr> aj_UUID := uuid \<rparr> else j) (jobs w) \<rparr>"

definition call_runner :: "runner_call \<Rightarrow> world \<Rightarrow> world" where
  "call_runner c w = w \<lparr> runner_calls := runner_calls w @ [c] \<rparr>"

text \<open>
  What the outside world answers during one request, one field per call site: the error
  (if any) of each store call, and the job service's answer to stop, submit and log
  retrieval. \<open>updateSchedule\<close> calls \<open>submit\<close>, so its environment holds one for it.
\<close>

record submit_env =
  InternalCoreURL :: string
  json_Marshal :: "ScheduleParam option \<Rightarrow> string option"
  sb_GetAdminJobs_err :: "string option"
  sb_AddAdminJob_err :: "string option"
  sb_SubmitJob :: "JobData \<Rightarrow> client_error + string"
  sb_DeleteAdminJob_err :: "string option"
  sb_SetAdminJobUUID_err :: "string option"

record update_env =
  us_GetAdminJobs_err :: "string option"
  us_PostAction :: "string \<Rightarrow> client_error option"
  us_DeleteAdminJob_err :: "string option"
  us_submit :: submit_env

record getlog_env =
  gl_GetAdminJob_err :: "string option"
  gl_GetJobLog :: "string \<Rightarrow> client_error + string"
  gl_Write_err :: "string option"

text \<open>
  Modelled from the spec: the error helpers of the base controller, which is not part of
  the sources at hand (\<open>HandleInternalServerError\<close> renders status 500,
  \<open>HandleStatusPreconditionFailed\<close> 412, \<open>HandleConflict\<close> 409, \<open>RenderError\<close> the status
  it is given; \<open>CustomAbort\<close> ends the request with its status).
  What a handler leaves behind: nothing (the caller goes on), a body written, an error
  rendered with a status code, an abort with a status code, or a nil dereference.
  The message texts are left out.
\<close>

datatype reply = NoError | Wrote string | RenderError int | CustomAbort int | NilPanic

section \<open>The admin job handlers\<close>

definition submit :: "submit_env \<Rightarrow> AdminJobReq \<Rightarrow> world \<Rightarrow> reply \<times> world" where
  "submit env ajr w =
     (case IsPeriodic ajr of
        None \<Rightarrow> (NilPanic, w)
      | Some periodic \<Rightarrow>
          if periodic \<and> sb_GetAdminJobs_err env \<noteq> None
          then (RenderError StatusInternalServerError, w)
          else if periodic \<and> length (GetAdminJobs (ajr_Name ajr) JobKindPeriodic w) \<noteq> 0
          then (RenderError StatusPreconditionFailed, w)
          else if sb_AddAdminJob_err env \<noteq> None
          then (RenderError StatusInternalServerError, w)
          else
            (let (i, w1) = AddAdminJob (ajr_Name ajr) (the (JobKind ajr))
                             (CronString (json_Marshal env) ajr) w;
                 job = the (ToJob (InternalCoreURL env) (ajr \<lparr> ajr_ID := i \<rparr>));
                 w2 = call_runner (SubmitJob job) w1
             in case sb_SubmitJob env job of
                  Inl err \<Rightarrow>
                    (let w3 = (if sb_DeleteAdminJob_err env \<noteq> None then w2
                               else DeleteAdminJob i w2)
                     in case err of
                          HTTPError code msg \<Rightarrow>
                            if code = StatusConflict then (RenderError StatusConflict, w3)
                            else (RenderError StatusInternalServerError, w3)
                        | OtherError msg \<Rightarrow> (RenderError StatusInternalServerError, w3))
                | Inr uuid \<Rightarrow>
                    if sb_SetAdminJobUUID_err env \<noteq> None
                    then (RenderError StatusInternalServerError, w2)
                    else (NoError, SetAdminJobUUID i uuid w2)))"

text \<open>
  The stop error is fatal unless it is an HTTP error with code 404
  (\<open>!ok || e.Code != http.StatusNotFound\<close>).
\<close>

definition stop_is_fatal :: "client_error option \<Rightarrow> bool" where
  "stop_is_fatal r =
     (case r of
        None \<Rightarrow> False
      | Some (HTTPError code msg) \<Rightarrow> code \<noteq> StatusNotFound
      | Some (OtherError msg) \<Rightarrow> True)"

definition updateSchedule :: "update_env \<Rightarrow> AdminJobReq \<Rightarrow> world \<Rightarrow> reply \<times> world" where
  "updateSchedule env ajr w =
     (case ajr_Schedule ajr of
        None \<Rightarrow> (NilPanic, w)
      | Some sp \<Rightarrow>
          if sp_Type sp = ScheduleManual then (RenderError StatusInternalServerError, w)
          else if us_GetAdminJobs_err env \<noteq> None then (RenderError StatusInternalServerError, w)
          else
            (case GetAdminJobs (ajr_Name ajr) JobKindPeriodic w of
               [j] \<Rightarrow>
                 (let w1 = call_runner (PostAction (aj_UUID j) JobActionStop) w
                  in if stop_is_fatal (us_PostAction env (aj_UUID j))
                     then (RenderError StatusInternalServerError, w1)
                     else if us_DeleteAdminJob_err env \<noteq> None
                     then (RenderError StatusInternalServerError, w1)
                     else
                       (let w2 = DeleteAdminJob (aj_ID j) w1
                        in if sp_Type sp \<noteq> ScheduleNone then submit (us_submit env) ajr w2
                           else (NoError, w2)))
             | _ \<Rightarrow> (RenderError StatusInternalServerError, w)))"

definition getLog :: "getlog_env \<Rightarrow> int \<Rightarrow> world \<Rightarrow> reply \<times> world" where
  "getLog env i w =
     (if gl_GetAdminJob_err env \<noteq> None then (CustomAbort StatusInternalServerError, w)
      else case GetAdminJob i w of
             None \<Rightarrow> (CustomAbort StatusNotFound, w)
           | Some job \<Rightarrow>
               (let w1 = call_runner (GetJobLog (aj_UUID job)) w
                in case gl_GetJobLog env (aj_UUID job) of
                     Inl (HTTPError code msg) \<Rightarrow> (RenderError code, w1)
                   | Inl (OtherError msg) \<Rightarrow> (RenderError StatusInternalServerError, w1)
                   | Inr logBytes \<Rightarrow>
                       if gl_Write_err env \<noteq> None
                       then (RenderError StatusInternalServerError, w1)
                       else (Wrote logBytes, w1)))"

text \<open>The HTTP status a reply surfaces to the caller, when it is an error.\<close>

fun error_status :: "reply \<Rightarrow> int option" where
  "error_status (RenderError c) = Some c"
| "error_status (CustomAbort c) = Some c"
| "error_status _ = None"

section \<open>Sequences of requests and the uniqueness invariant\<close>

definition periodic_count :: "string \<Rightarrow> world \<Rightarrow> nat" where
  "periodic_count name w = length (GetAdminJobs name JobKindPeriodic w)"

datatype op = Submit submit_env AdminJobReq | UpdateSchedule update_env AdminJobReq

fun apply_op :: "op \<Rightarrow> world \<Rightarrow> reply \<times> world" where
  "apply_op (Submit env ajr) w = submit env ajr w"
| "apply_op (UpdateSchedule env ajr) w = updateSchedule env ajr w"

fun run_ops :: "op list \<Rightarrow> world \<Rightarrow> world" where
  "run_ops [] w = w"
| "run_ops (x # xs) w = run_ops xs (snd (apply_op x w))"

definition at_most_one_periodic :: "world \<Rightarrow> bool" where
  "at_most_one_periodic w = (\<forall>n. periodic_count n w \<le> 1)"

section \<open>Example data\<close>

definition empty_world :: world where
  "empty_world = \<lparr> jobs = [], next_id = 1, runner_calls = [] \<rparr>"

definition ex_job :: AdminJob where
  "ex_job = \<lparr> aj_ID = 1, aj_Name = ''scan-all'', aj_Kind = JobKindPeriodic,
              aj_Cron = ''{}'', aj_UUID = ''uuid-1'', aj_Status = [] \<rparr>"

definition ex_world :: world where
  "ex_world = \<lparr> jobs = [ex_job], next_id = 2, runner_calls = [] \<rparr>"

definition ex_submit_env :: submit_env where
  "ex_submit_env = \<lparr> InternalCoreURL = ''http://core'',
              json_Marshal = (\<lambda>s. Some ''{}''),
              sb_GetAdminJobs_err = None,
              sb_AddAdminJob_err = None,
              sb_SubmitJob = (\<lambda>j. Inr ''uuid-2''),
              sb_DeleteAdminJob_err = None,
              sb_SetAdminJobUUID_err = None \<rparr>"

definition ex_update_env :: update_env where
  "ex_update_env = \<lparr> us_GetAdminJobs_err = None,
              us_PostAction = (\<lambda>u. None),
              us_DeleteAdminJob_err = None,
              us_submit = ex_submit_env \<rparr>"

definition ex_getlog_env :: getlog_env where
  "ex_getlog_env = \<lparr> gl_GetAdminJob_err = None,
              gl_GetJobLog = (\<lambda>u. Inr ''log''),
              gl_Write_err = None \<rparr>"

definition ex_req :: "string \<Rightarrow> AdminJobReq" where
  "ex_req ty = \<lparr> ajr_Schedule = Some \<lparr> sp_Type = ty, sp_Cron = ''0 0 2 * * *'' \<rparr>,
                 ajr_Name = ''scan-all'', ajr_Status = [], ajr_ID = 0,
                 ajr_Parameters = Map.empty \<rparr>"

definition ex_ops :: "op list" where
  "ex_ops = [Submit ex_submit_env (ex_req ScheduleDaily)]"

section \<open>The scan job: parameters (pkg/scan/job.go)\<close>

definition JobParamRegistration :: string where "JobParamRegistration = ''registration''"
definition JobParameterRequest :: string where "JobParameterRequest = ''scanRequest''"
definition JobParameterMimes :: string where "JobParameterMimes = ''mimeTypes''"

text \<open>Instants and durations are counted in nanoseconds, as \<open>time.Duration\<close> does.\<close>

definition Second :: int where "Second = 1000000000"
definition Minute :: int where "Minute = 60 * Second"
definition checkTimeout :: int where "checkTimeout = 30 * Minute"
definition firstCheckInterval :: int where "firstCheckInterval = 2 * Second"

record CheckInReport =
  cir_Digest :: string
  cir_RegistrationUUID :: string
  cir_MimeType :: string
  cir_RawReport :: string

text \<open>
  Modelled from the spec: the scan request and the scanner registration of packages
  \<open>pkg/scan/rest/v1\<close> and \<open>pkg/scan/dao/scanner\<close>, whose declarations are not part of the
  sources at hand. Pointers are options; of a registration the job only reads the UUID.
\<close>

record Artifact =
  art_Repository :: string
  art_Digest :: string
  art_Tag :: string

record Registry =
  reg_URL :: string
  reg_Authorization :: string

record ScanRequest =
  sr_Artifact :: "Artifact option"
  sr_Registry :: "Registry option"

record Registration =
  rg_UUID :: string
  rg_URL :: string

text \<open>
  What a Go function with an error result does: return a value, return an error, or
  panic.
\<close>

datatype 'a outcome = Value 'a | Err error | Panic

text \<open>
  The job parameters, a \<open>map[string]interface{}\<close>; \<open>None\<close> is the nil map, which reads
  like an empty one.
\<close>

type_synonym Parameters = "(string \<rightharpoonup> jvalue) option"

definition param :: "Parameters \<Rightarrow> string \<Rightarrow> jvalue option" where
  "param params key = (case params of None \<Rightarrow> None | Some m \<Rightarrow> m key)"

text \<open>
  \<open>reflect.TypeOf(v).String()\<close>: \<open>reflect.TypeOf\<close> of the nil interface is nil, and the
  call of \<open>String\<close> on it panics (\<open>None\<close>).
\<close>

fun TypeOf_String :: "jvalue \<Rightarrow> string option" where
  "TypeOf_String JNil = None"
| "TypeOf_String (JString s) = Some ''string''"
| "TypeOf_String (JList l) = Some ''[]interface {}''"
| "TypeOf_String (JOther tn) = Some tn"

definition quoted :: "string \<Rightarrow> string" where
  "quoted s = [CHR 0x27] @ s @ [CHR 0x27]"

text \<open>
  The (de)serialisers and validators of the registration and of the scan request belong
  to other packages and to \<open>encoding/json\<close>; they are parameters.
\<close>

record codec_env =
  Registration_FromJSON :: "string \<Rightarrow> error + Registration"
  Registration_Validate :: "Registration \<Rightarrow> error option"
  ScanRequest_FromJSON :: "string \<Rightarrow> error + ScanRequest"
  ScanRequest_Validate :: "ScanRequest \<Rightarrow> error option"
  ScanRequest_ToJSON :: "ScanRequest \<Rightarrow> string \<times> error option"
  json_Marshal_cir :: "CheckInReport \<Rightarrow> error + string"
  json_Unmarshal_cir :: "string \<Rightarrow> CheckInReport \<Rightarrow> CheckInReport \<times> error option"

definition FromJSON :: "codec_env \<Rightarrow> CheckInReport \<Rightarrow> string \<Rightarrow> CheckInReport \<times> error option" where
  "FromJSON env cir jsonData =
     (if length jsonData = 0 then (cir, Some (New ''empty JSON data''))
      else json_Unmarshal_cir env jsonData cir)"

definition ToJSON :: "codec_env \<Rightarrow> CheckInReport \<Rightarrow> string \<times> error option" where
  "ToJSON env cir =
     (case json_Marshal_cir env cir of
        Inl err \<Rightarrow> ([], Some (Wrap err ''To JSON: CheckInReport''))
      | Inr jsonData \<Rightarrow> (jsonData, None))"

definition malformed :: "string \<Rightarrow> string \<Rightarrow> jvalue \<Rightarrow> 'a outcome" where
  "malformed key expected v =
     (case TypeOf_String v of
        None \<Rightarrow> Panic
      | Some tn \<Rightarrow>
          Err (New (''malformed job parameter '' @ quoted key @ '', expecting '' @ expected
                    @ '' but got '' @ tn)))"

definition missing :: "string \<Rightarrow> 'a outcome" where
  "missing key = Err (New (''missing job parameter '' @ quoted key))"

definition ExtractScanReq :: "codec_env \<Rightarrow> Parameters \<Rightarrow> ScanRequest outcome" where
  "ExtractScanReq env params =
     (case param params JobParameterRequest of
        None \<Rightarrow> missing JobParameterRequest
      | Some (JString jsonData) \<Rightarrow>
          (case ScanRequest_FromJSON env jsonData of
             Inl err \<Rightarrow> Err err
           | Inr req \<Rightarrow>
               (case ScanRequest_Validate env req of
                  Some err \<Rightarrow> Err err
                | None \<Rightarrow> Value req))
      | Some v \<Rightarrow> malformed JobParameterRequest ''string'' v)"

definition extractRegistration :: "codec_env \<Rightarrow> Parameters \<Rightarrow> Registration outcome" where
  "extractRegistration env params =
     (case param params JobParamRegistration of
        None \<Rightarrow> missing JobParamRegistration
      | Some (JString jsonData) \<Rightarrow>
          (case Registration_FromJSON env jsonData of
             Inl err \<Rightarrow> Err err
           | Inr r \<Rightarrow>
               (case Registration_Validate env r of
                  Some err \<Rightarrow> Err err
                | None \<Rightarrow> Value r))
      | Some v \<Rightarrow> malformed JobParamRegistration ''string'' v)"

fun mimes_loop :: "jvalue list \<Rightarrow> string list \<Rightarrow> string list outcome" where
  "mimes_loop [] mimes = Value mimes"
| "mimes_loop (JString mime # l) mimes = mimes_loop l (mimes @ [mime])"
| "mimes_loop (v # l) mimes =
     (case TypeOf_String v of
        None \<Rightarrow> Panic
      | Some tn \<Rightarrow> Err (New (''expect string but got '' @ tn)))"

definition extractMimeTypes :: "Parameters \<Rightarrow> string list outcome" where
  "extractMimeTypes params =
     (case param params JobParameterMimes of
        None \<Rightarrow> missing JobParameterMimes
      | Some (JList l) \<Rightarrow> mimes_loop l []
      | Some v \<Rightarrow> malformed JobParameterMimes ''[]interface{}'' v)"

text \<open>\<open>Validate\<close> returns nil (\<open>Value ()\<close>), returns an error, or panics.\<close>

definition Validate :: "codec_env \<Rightarrow> Parameters \<Rightarrow> unit outcome" where
  "Validate env params =
     (if params = None then Err (New ''missing parameter of scan job'')
      else case extractRegistration env params of
             Panic \<Rightarrow> Panic
           | Err err \<Rightarrow> Err (Wrap err ''job validate'')
           | Value r \<Rightarrow>
               (case ExtractScanReq env params of
                  Panic \<Rightarrow> Panic
                | Err err \<Rightarrow> Err (Wrap err ''job validate'')
                | Value req \<Rightarrow>
                    (case extractMimeTypes params of
                       Panic \<Rightarrow> Panic
                     | Err err \<Rightarrow> Err (Wrap err ''job validate'')
                     | Value mimes \<Rightarrow> Value ())))"

text \<open>
  \<open>removeAuthInfo\<close> dereferences the request and its registry (\<open>None\<close>: a nil dereference).
  It returns the string it got from \<open>ToJSON\<close>, and logs the error of \<open>ToJSON\<close> if any;
  the pair is the string returned and the error logged.
\<close>

definition removeAuthInfo :: "codec_env \<Rightarrow> ScanRequest option \<Rightarrow> (string \<times> error option) option" where
  "removeAuthInfo env sr =
     (case sr of
        None \<Rightarrow> None
      | Some sr' \<Rightarrow>
          (case sr_Registry sr' of
             None \<Rightarrow> None
           | Some registry \<Rightarrow>
               (let req = \<lparr> sr_Artifact = sr_Artifact sr',
                            sr_Registry = Some \<lparr> reg_URL = reg_URL registry,
                                                 reg_Authorization = ''[HIDDEN]'' \<rparr> \<rparr>;
                    (str, err) = ScanRequest_ToJSON env req
                in Some (str, map_option (\<lambda>e. Wrap e ''scan job: remove auth'') err))))"

section \<open>JSON for check-in reports (encoding/json)\<close>

text \<open>
  \<open>ToJSON\<close> and \<open>FromJSON\<close> delegate to \<open>json.Marshal\<close> and \<open>json.Unmarshal\<close> of the Go
  standard library. This section describes what these do for a struct of four string
  fields with the tags \<open>digest\<close>, \<open>registration_uuid\<close>, \<open>mime_type\<close> and \<open>raw_report\<close>:
  strings are byte sequences; the encoder escapes quotes, backslashes, control
  characters and \<open><\<close>, \<open>>\<close>, \<open>&\<close>, writes U+2028 and U+2029 as escapes, and replaces each
  byte that is not part of a well-formed UTF-8 sequence by the escape of U+FFFD.
  (The backspace and form feed characters are written as \<open>u0008\<close> and \<open>u000c\<close> escapes,
  as the releases of the repository's time do; later releases use the short escapes,
  which the decoder reads back alike.)
  The decoder is described for the texts that consist of one object whose keys are the
  four tags and whose values are strings or \<open>null\<close>; on any other text (other keys, which
  may match a field up to case, values of other kinds) its result is left open
  (\<open>NotModelled\<close>).
\<close>

abbreviation byte :: "char \<Rightarrow> nat" where "byte c \<equiv> of_char c"

definition RuneError :: nat where "RuneError = 0xFFFD"

definition cont :: "char \<Rightarrow> bool" where
  "cont c = (0x80 \<le> byte c \<and> byte c \<le> 0xBF)"

text \<open>
  \<open>utf8.DecodeRuneInString\<close>: the first rune of a byte string and the number of bytes it
  takes; \<open>(RuneError, 1)\<close> when the bytes at the head are not a well-formed sequence.
\<close>

fun DecodeRune :: "string \<Rightarrow> nat \<times> nat" where
  "DecodeRune [] = (RuneError, 0)"
| "DecodeRune (c0 # s) =
     (let b0 = byte c0
      in if b0 < 0x80 then (b0, 1)
         else if b0 < 0xC2 \<or> 0xF4 < b0 then (RuneError, 1)
         else if b0 < 0xE0 then
           (case s of
              c1 # s1 \<Rightarrow>
                if cont c1 then ((b0 mod 32) * 64 + byte c1 mod 64, 2) else (RuneError, 1)
            | _ \<Rightarrow> (RuneError, 1))
         else if b0 < 0xF0 then
           (case s of
              c1 # c2 # s2 \<Rightarrow>
                if (if b0 = 0xE0 then 0xA0 else 0x80) \<le> byte c1
                   \<and> byte c1 \<le> (if b0 = 0xED then 0x9F else 0xBF) \<and> cont c2
                then ((b0 mod 16) * 4096 + (byte c1 mod 64) * 64 + byte c2 mod 64, 3)
                else (RuneError, 1)
            | _ \<Rightarrow> (RuneError, 1))
         else
           (case s of
              c1 # c2 # c3 # s3 \<Rightarrow>
                if (if b0 = 0xF0 then 0x90 else 0x80) \<le> byte c1
                   \<and> byte c1 \<le> (if b0 = 0xF4 then 0x8F else 0xBF) \<and> cont c2 \<and> cont c3
                then ((b0 mod 8) * 262144 + (byte c1 mod 64) * 4096 + (byte c2 mod 64) * 64
                        + byte c3 mod 64, 4)
                else (RuneError, 1)
            | _ \<Rightarrow> (RuneError, 1)))"

text \<open>
  \<open>utf8.EncodeRune\<close>: the bytes of a rune; surrogates and runes out of range are written as
  U+FFFD.
\<close>

definition EncodeRune :: "nat \<Rightarrow> string" where
  "EncodeRune r =
     (if r < 0x80 then [char_of r]
      else if r < 0x800 then [char_of (0xC0 + r div 64), char_of (0x80 + r mod 64)]
      else if 0x10FFFF < r \<or> (0xD800 \<le> r \<and> r \<le> 0xDFFF) then [CHR 0xEF, CHR 0xBF, CHR 0xBD]
      else if r < 0x10000
      then [char_of (0xE0 + r div 4096), char_of (0x80 + r div 64 mod 64), char_of (0x80 + r mod 64)]
      else [char_of (0xF0 + r div 262144), char_of (0x80 + r div 4096 mod 64),
            char_of (0x80 + r div 64 mod 64), char_of (0x80 + r mod 64)])"

definition hex :: "nat \<Rightarrow> char" where
  "hex n = ''0123456789abcdef'' ! n"

definition htmlSafe :: "char \<Rightarrow> bool" where
  "htmlSafe c = (0x20 \<le> byte c \<and> byte c < 0x80 \<and> c \<noteq> CHR 0x22 \<and> c \<noteq> CHR ''&''
                 \<and> c \<noteq> CHR ''<'' \<and> c \<noteq> CHR ''>'' \<and> c \<noteq> CHR 0x5C)"

definition escape_ascii :: "char \<Rightarrow> string" where
  "escape_ascii c =
     (if c = CHR 0x5C \<or> c = CHR 0x22 then [CHR 0x5C, c]
      else if c = CHR 0x0A then [CHR 0x5C, CHR ''n'']
      else if c = CHR 0x0D then [CHR 0x5C, CHR ''r'']
      else if c = CHR 0x09 then [CHR 0x5C, CHR ''t'']
      else [CHR 0x5C, CHR ''u'', CHR ''0'', CHR ''0'', hex (byte c div 16), hex (byte c mod 16)])"

text \<open>
  The body of a JSON string literal as \<open>json.Marshal\<close> writes it (with HTML escaping, its
  default). After a sequence of \<open>sz\<close> bytes the encoder goes on behind it, that is,
  \<open>sz - 1\<close> bytes into the rest.
\<close>

fun escape_string :: "string \<Rightarrow> string" where
  "escape_string [] = []"
| "escape_string (c # s) =
     (if byte c < 0x80
      then (if htmlSafe c then [c] else escape_ascii c) @ escape_string s
      else case DecodeRune (c # s) of
             (r, sz) \<Rightarrow>
               if r = RuneError \<and> sz = 1
               then [CHR 0x5C, CHR ''u'', CHR ''f'', CHR ''f'', CHR ''f'', CHR ''d''] @ escape_string s
               else if r = 0x2028 \<or> r = 0x2029
               then [CHR 0x5C, CHR ''u'', CHR ''2'', CHR ''0'', CHR ''2'', hex (r mod 16)]
                      @ escape_string (drop (sz - 1) s)
               else take sz (c # s) @ escape_string (drop (sz - 1) s))"


definition json_string :: "string \<Rightarrow> string" where
  "json_string s = [CHR 0x22] @ escape_string s @ [CHR 0x22]"

text \<open>
  \<open>json.Marshal\<close> of a check-in report: the four fields in the order of their declaration,
  none omitted.
\<close>

definition go_Marshal :: "CheckInReport \<Rightarrow> string" where
  "go_Marshal cir =
     ''{'' @ json_string ''digest'' @ '':'' @ json_string (cir_Digest cir)
     @ '','' @ json_string ''registration_uuid'' @ '':'' @ json_string (cir_RegistrationUUID cir)
     @ '','' @ json_string ''mime_type'' @ '':'' @ json_string (cir_MimeType cir)
     @ '','' @ json_string ''raw_report'' @ '':'' @ json_string (cir_RawReport cir) @ ''}''"

text \<open>
  The decoder. \<open>hex4\<close> is the value of four hexadecimal digits, \<open>getu4\<close> the value of a
  \<open>u\<close> escape at the head of the text, if there is one.
\<close>

definition hexval :: "char \<Rightarrow> nat option" where
  "hexval c =
     (let b = byte c
      in if 0x30 \<le> b \<and> b \<le> 0x39 then Some (b - 0x30)
         else if 0x61 \<le> b \<and> b \<le> 0x66 then Some (b - 0x61 + 10)
         else if 0x41 \<le> b \<and> b \<le> 0x46 then Some (b - 0x41 + 10)
         else None)"

definition hex4 :: "string \<Rightarrow> nat option" where
  "hex4 s =
     (case s of
        h1 # h2 # h3 # h4 # s' \<Rightarrow>
          (case (hexval h1, hexval h2, hexval h3, hexval h4) of
             (Some a, Some b, Some c, Some d) \<Rightarrow> Some (((a * 16 + b) * 16 + c) * 16 + d)
           | _ \<Rightarrow> None)
      | _ \<Rightarrow> None)"

definition getu4 :: "string \<Rightarrow> nat option" where
  "getu4 s =
     (case s of
        b # u # s' \<Rightarrow> if b = CHR 0x5C \<and> u = CHR ''u'' then hex4 s' else None
      | _ \<Rightarrow> None)"

definition unescape :: "char \<Rightarrow> char option" where
  "unescape e =
     (if e = CHR 0x22 \<or> e = CHR 0x5C \<or> e = CHR ''/'' then Some e
      else if e = CHR ''b'' then Some (CHR 0x08)
      else if e = CHR ''f'' then Some (CHR 0x0C)
      else if e = CHR ''n'' then Some (CHR 0x0A)
      else if e = CHR ''r'' then Some (CHR 0x0D)
      else if e = CHR ''t'' then Some (CHR 0x09)
      else None)"

datatype 'a parsed = Parsed 'a | Invalid | NotModelled

fun prepend :: "string \<Rightarrow> (string \<times> string) parsed \<Rightarrow> (string \<times> string) parsed" where
  "prepend t (Parsed (t', rest)) = Parsed (t @ t', rest)"
| "prepend t Invalid = Invalid"
| "prepend t NotModelled = NotModelled"

text \<open>
  The body of a string literal, read from behind the opening quote up to the closing
  quote: the decoded bytes and the text that follows. Escapes are resolved, a pair of
  surrogate escapes is joined, a lone surrogate and every byte that is not well-formed
  UTF-8 become U+FFFD; a control character or an unknown escape is a syntax error.
\<close>

fun string_body :: "string \<Rightarrow> (string \<times> string) parsed" where
  "string_body [] = Invalid"
| "string_body (c # s) =
     (if c = CHR 0x22 then Parsed ([], s)
      else if c = CHR 0x5C then
        (case s of
           [] \<Rightarrow> Invalid
         | e # s' \<Rightarrow>
             if e = CHR ''u'' then
               (case hex4 s' of
                  None \<Rightarrow> Invalid
                | Some rr \<Rightarrow>
                    if 0xD800 \<le> rr \<and> rr < 0xE000 then
                      (case getu4 (drop 4 s') of
                         None \<Rightarrow> prepend (EncodeRune RuneError) (string_body (drop 4 s'))
                       | Some rr1 \<Rightarrow>
                           if rr < 0xDC00 \<and> 0xDC00 \<le> rr1 \<and> rr1 < 0xE000
                           then prepend (EncodeRune (0x10000 + (rr - 0xD800) * 1024 + (rr1 - 0xDC00)))
                                  (string_body (drop 10 s'))
                           else prepend (EncodeRune RuneError) (string_body (drop 4 s')))
                    else prepend (EncodeRune rr) (string_body (drop 4 s')))
             else
               (case unescape e of
                  None \<Rightarrow> Invalid
                | Some ch \<Rightarrow> prepend [ch] (string_body s')))
      else if byte c < 0x20 then Invalid
      else if byte c < 0x80 then prepend [c] (string_body s)
      else case DecodeRune (c # s) of
             (r, sz) \<Rightarrow> prepend (EncodeRune r) (string_body (drop (sz - 1) s)))"

definition is_space :: "char \<Rightarrow> bool" where
  "is_space c = (c = CHR '' '' \<or> c = CHR 0x09 \<or> c = CHR 0x0D \<or> c = CHR 0x0A)"

definition skip_ws :: "string \<Rightarrow> string" where
  "skip_ws s = dropWhile is_space s"

definition field_value :: "string \<Rightarrow> (string option \<times> string) parsed" where
  "field_value s =
     (case s of
        [] \<Rightarrow> Invalid
      | c # s' \<Rightarrow>
          if c = CHR 0x22 then
            (case string_body s' of
               Parsed (t, rest) \<Rightarrow> Parsed (Some t, rest)
             | Invalid \<Rightarrow> Invalid
             | NotModelled \<Rightarrow> NotModelled)
          else if take 4 s = ''null'' then Parsed (None, drop 4 s)
          else NotModelled)"

definition set_field :: "string \<Rightarrow> string option \<Rightarrow> CheckInReport \<Rightarrow> CheckInReport parsed" where
  "set_field key v cir =
     (if key = ''digest''
      then Parsed (case v of None \<Rightarrow> cir | Some t \<Rightarrow> cir \<lparr> cir_Digest := t \<rparr>)
      else if key = ''registration_uuid''
      then Parsed (case v of None \<Rightarrow> cir | Some t \<Rightarrow> cir \<lparr> cir_RegistrationUUID := t \<rparr>)
      else if key = ''mime_type''
      then Parsed (case v of None \<Rightarrow> cir | Some t \<Rightarrow> cir \<lparr> cir_MimeType := t \<rparr>)
      else if key = ''raw_report''
      then Parsed (case v of None \<Rightarrow> cir | Some t \<Rightarrow> cir \<lparr> cir_RawReport := t \<rparr>)
      else NotModelled)"

text \<open>
  The members of the object, from the first key on, stored into the receiver one after
  the other. Each round consumes at least one byte, so the number of bytes of the text
  is fuel enough; an unknown key, which the library may still match up to case or skip,
  is left open.
\<close>

fun members :: "nat \<Rightarrow> string \<Rightarrow> CheckInReport \<Rightarrow> CheckInReport parsed" where
  "members 0 s cir = NotModelled"
| "members (Suc fuel) s cir =
     (case s of
        [] \<Rightarrow> Invalid
      | c # s1 \<Rightarrow>
          if c \<noteq> CHR 0x22 then Invalid
          else
            (case string_body s1 of
               Invalid \<Rightarrow> Invalid
             | NotModelled \<Rightarrow> NotModelled
             | Parsed (key, s2) \<Rightarrow>
                 (case skip_ws s2 of
                    [] \<Rightarrow> Invalid
                  | c2 # s3 \<Rightarrow>
                      if c2 \<noteq> CHR '':'' then Invalid
                      else
                        (case field_value (skip_ws s3) of
                           Invalid \<Rightarrow> Invalid
                         | NotModelled \<Rightarrow> NotModelled
                         | Parsed (v, s4) \<Rightarrow>
                             (case set_field key v cir of
                                Invalid \<Rightarrow> Invalid
                              | NotModelled \<Rightarrow> NotModelled
                              | Parsed cir' \<Rightarrow>
                                  (case skip_ws s4 of
                                     [] \<Rightarrow> Invalid
                                   | c3 # s5 \<Rightarrow>
                                       if c3 = CHR '','' then members fuel (skip_ws s5) cir'
                                       else if c3 = CHR ''}''
                                       then (if skip_ws s5 = [] then Parsed cir' else Invalid)
                                       else Invalid))))))"

text \<open>
  \<open>json.Unmarshal\<close> into a check-in report: the report after the call and the error, or
  \<open>None\<close> where this description leaves the result open. On a syntax error the receiver
  is left as it was.
\<close>

definition go_Unmarshal :: "string \<Rightarrow> CheckInReport \<Rightarrow> (CheckInReport \<times> error option) option" where
  "go_Unmarshal data cir =
     (case skip_ws data of
        [] \<Rightarrow> Some (cir, Some (New ''unexpected end of JSON input''))
      | c # s \<Rightarrow>
          if c \<noteq> CHR ''{'' then None
          else
            (case skip_ws s of
               [] \<Rightarrow> Some (cir, Some (New ''unexpected end of JSON input''))
             | c' # s' \<Rightarrow>
                 if c' = CHR ''}''
                 then (if skip_ws s' = [] then Some (cir, None)
                       else Some (cir, Some (New ''invalid character after top-level value'')))
                 else
                   (case members (length data) (c' # s') cir of
                      Parsed cir' \<Rightarrow> Some (cir', None)
                    | Invalid \<Rightarrow> Some (cir, Some (New ''invalid JSON''))
                    | NotModelled \<Rightarrow> None)))"


text \<open>
  \<open>utf8.ValidString\<close>: every byte belongs to a well-formed sequence.
\<close>

fun valid_utf8 :: "string \<Rightarrow> bool" where
  "valid_utf8 [] = True"
| "valid_utf8 (c # s) =
     (if byte c < 0x80 then valid_utf8 s
      else case DecodeRune (c # s) of
             (r, sz) \<Rightarrow> \<not> (r = RuneError \<and> sz = 1) \<and> valid_utf8 (drop (sz - 1) s))"

definition field_names :: "string set" where
  "field_names = {''digest'', ''registration_uuid'', ''mime_type'', ''raw_report''}"

text \<open>
  A codec environment follows the standard library: it marshals a report as above, and
  unmarshals as above wherever the description above says what happens.
\<close>

definition go_json :: "codec_env \<Rightarrow> bool" where
  "go_json env =
     (json_Marshal_cir env = (\<lambda>cir. Inr (go_Marshal cir))
      \<and> (\<forall>data cir res. go_Unmarshal data cir = Some res \<longrightarrow>
             json_Unmarshal_cir env data cir = res))"

section \<open>The scan job: pollers\<close>

text \<open>
  Modelled from the spec: the answers of the scanner client of package
  \<open>pkg/scan/rest/v1\<close>, which is not part of the sources at hand. \<open>GetScanReport\<close> returns
  a report, the not-ready error with its retry-after value, or another error. The
  declaration of the retry-after value is not at hand either: \<open>Run\<close> prints it with \<open>%d\<close>
  and converts it to a \<open>time.Duration\<close>, so it is an integer; it is taken to be a Go
  \<open>int\<close> of 64 bits.
\<close>

datatype report_result = Report string | NotReady int | Failed error

datatype select_case = Tick | SysDone | Timeout

text \<open>
  The world of one poller: the instant its goroutine starts; for its \<open>k\<close>-th call of
  \<open>GetScanReport\<close>, how many nanoseconds the call takes and what it returns; the report
  resolver and the check-in callback; the instant the system context is cancelled, if
  ever; and, for its \<open>k\<close>-th \<open>select\<close>, the case the runtime picks when several are ready
  at the same instant.
\<close>

record poller_env =
  started_at :: int
  GetScanReport :: "nat \<Rightarrow> nat \<times> report_result"
  ResolveData :: "string \<Rightarrow> string \<Rightarrow> error option"
  Checkin :: "string \<Rightarrow> error option"
  sys_done_at :: "int option"
  favoured :: "nat \<Rightarrow> select_case"

text \<open>A product of 64-bit integers wraps around.\<close>

definition wrap64 :: "int \<Rightarrow> int" where
  "wrap64 x = (x + 2 ^ 63) mod 2 ^ 64 - 2 ^ 63"

text \<open>\<open>time.Duration(notReadyErr.RetryAfter) * time.Second\<close>\<close>

definition retry_duration :: "int \<Rightarrow> int" where
  "retry_duration retryAfter = wrap64 (retryAfter * Second)"

text \<open>A timer (re)set at instant \<open>t\<close> to duration \<open>d\<close> fires at \<open>t + d\<close>, at once when \<open>d \<le> 0\<close>.\<close>

definition fires_at :: "int \<Rightarrow> int \<Rightarrow> int" where
  "fires_at t d = t + max 0 d"

text \<open>
  One \<open>select\<close>, entered at instant \<open>now\<close>: the timer \<open>tm\<close> fires at \<open>deadline\<close>, the
  system context is done from \<open>done\<close> on, and the \<open>time.After(checkTimeout)\<close> channel,
  created on entering this \<open>select\<close>, fires \<open>checkTimeout\<close> after \<open>now\<close>. The case that
  is ready first is taken, at that instant; among cases ready at the same instant the
  favoured one is taken if it is among them.
\<close>

definition select :: "select_case \<Rightarrow> int \<Rightarrow> int \<Rightarrow> int option \<Rightarrow> select_case \<times> int" where
  "select fav now deadline done =
     (let tick_at = max now deadline;
          timeout_at = fires_at now checkTimeout;
          done_at = map_option (max now) done;
          t = (case done_at of
                 None \<Rightarrow> min tick_at timeout_at
               | Some d \<Rightarrow> min tick_at (min d timeout_at));
          ready = (\<lambda>c. case c of
                          Tick \<Rightarrow> tick_at = t
                        | SysDone \<Rightarrow> done_at = Some t
                        | Timeout \<Rightarrow> timeout_at = t)
      in (if ready fav then fav
          else if ready Tick then Tick
          else if ready SysDone then SysDone
          else Timeout, t))"

text \<open>
  How a poller ended: its report checked in, an error recorded (scanner error, invalid
  report, failed check-in), stopped by the system context, timed out, or crashed on a
  nil dereference.
\<close>

datatype ending = CheckedIn | Rejected | Cancelled | TimedOut | Crashed

text \<open>
  What a poller leaves: the content of its slot \<open>errs[i]\<close>, how it ended and when, and the
  instants of its calls of \<open>GetScanReport\<close>.
\<close>

record poll_out =
  slot :: "error option"
  ending :: ending
  finished_at :: int
  attempts :: "int list"

datatype tick_result = Again int int | Stop "error option" ending int

text \<open>
  The body of \<open>case t := <-tm.C\<close>, for the \<open>k\<close>-th call, at instant \<open>t\<close>: either the loop
  goes on (\<open>Again now deadline\<close>, after \<open>tm.Reset\<close>), or the poller returns.
\<close>

definition on_tick ::
  "codec_env \<Rightarrow> poller_env \<Rightarrow> Registration option \<Rightarrow> ScanRequest \<Rightarrow> string \<Rightarrow> nat \<Rightarrow> int
     \<Rightarrow> tick_result" where
  "on_tick cenv env r req m k t =
     (let (took, res) = GetScanReport env k;
          t' = t + int took
      in case res of
           NotReady retryAfter \<Rightarrow> Again t' (fires_at t' (retry_duration retryAfter))
         | Failed err \<Rightarrow>
             Stop (Some (Wrap err (''check scan report with mime type '' @ m))) Rejected t'
         | Report rawReport \<Rightarrow>
             (case ResolveData env m rawReport of
                Some err \<Rightarrow> Stop (Some (Wrap err ''scan job: resolve report data'')) Rejected t'
              | None \<Rightarrow>
                  (case (sr_Artifact req, r) of
                     (Some artifact, Some registration) \<Rightarrow>
                       (let cir = \<lparr> cir_Digest = art_Digest artifact,
                                    cir_RegistrationUUID = rg_UUID registration,
                                    cir_MimeType = m,
                                    cir_RawReport = rawReport \<rparr>;
                            (jsonData, er) = ToJSON cenv cir;
                            er' = (if er = None then Checkin env jsonData else er)
                        in case er' of
                             None \<Rightarrow> Stop None CheckedIn t'
                           | Some e \<Rightarrow>
                               Stop (Some (Wrap e (''check in scan report for mime type '' @ m)))
                                 Rejected t')
                   | _ \<Rightarrow> Stop None Crashed t')))"

text \<open>
  The \<open>for { select { ... } }\<close> loop (the lines a poller writes to the job log are left
  out). It may run forever, so it is given fuel: the number
  of times the \<open>select\<close> may be entered; \<open>None\<close> means the poller has not returned within
  that fuel.
\<close>

fun poll_loop ::
  "nat \<Rightarrow> codec_env \<Rightarrow> poller_env \<Rightarrow> Registration option \<Rightarrow> ScanRequest \<Rightarrow> string
     \<Rightarrow> nat \<Rightarrow> int \<Rightarrow> int \<Rightarrow> int list \<Rightarrow> poll_out option" where
  "poll_loop 0 cenv env r req m k now deadline att = None"
| "poll_loop (Suc fuel) cenv env r req m k now deadline att =
     (case select (favoured env k) now deadline (sys_done_at env) of
        (SysDone, t) \<Rightarrow>
          Some \<lparr> slot = None, ending = Cancelled, finished_at = t, attempts = att \<rparr>
      | (Timeout, t) \<Rightarrow>
          Some \<lparr> slot = Some (New ''check scan report timeout''), ending = TimedOut,
                 finished_at = t, attempts = att \<rparr>
      | (Tick, t) \<Rightarrow>
          (case on_tick cenv env r req m k t of
             Again now' deadline' \<Rightarrow>
               poll_loop fuel cenv env r req m (Suc k) now' deadline' (att @ [t])
           | Stop s e t' \<Rightarrow>
               Some \<lparr> slot = s, ending = e, finished_at = t', attempts = att @ [t] \<rparr>))"

definition poller ::
  "nat \<Rightarrow> codec_env \<Rightarrow> poller_env \<Rightarrow> Registration option \<Rightarrow> ScanRequest \<Rightarrow> string
     \<Rightarrow> poll_out option" where
  "poller fuel cenv env r req m =
     poll_loop fuel cenv env r req m 0 (started_at env)
       (fires_at (started_at env) firstCheckInterval) []"

section \<open>The scan job: Run\<close>

datatype log_entry = PrintJSONParameter string string | LogMimeTypes "string list" | LogError error

datatype run_end = Returned "error option" | Crash

record run_env =
  codecs :: codec_env
  ClientPool_Get :: "Registration option \<Rightarrow> error option"
  SubmitScan :: "ScanRequest \<Rightarrow> error option"
  pollers :: "nat \<Rightarrow> poller_env"

text \<open>The loop that merges the slots into \<open>err\<close>.\<close>

fun merge_errs :: "error option \<Rightarrow> error option list \<Rightarrow> error option" where
  "merge_errs err [] = err"
| "merge_errs err (None # errs) = merge_errs err errs"
| "merge_errs None (Some e # errs) = merge_errs (Some e) errs"
| "merge_errs (Some err) (Some e # errs) = merge_errs (Some (Wrap e (Error err))) errs"

text \<open>
  \<open>Run\<close> ignores the errors of the three extractions: a failed extraction leaves the nil
  pointer (\<open>None\<close>), respectively the nil slice.
\<close>

fun ignore_err :: "'a outcome \<Rightarrow> 'a option option" where
  "ignore_err (Value v) = Some (Some v)"
| "ignore_err (Err e) = Some None"
| "ignore_err Panic = None"

definition requested_mimes :: "Parameters \<Rightarrow> string list" where
  "requested_mimes params = (case extractMimeTypes params of Value mimes \<Rightarrow> mimes | _ \<Rightarrow> [])"

text \<open>All pollers of a run, in index order; each with the fuel given.\<close>

definition run_pollers ::
  "nat \<Rightarrow> run_env \<Rightarrow> Registration option \<Rightarrow> ScanRequest \<Rightarrow> string list \<Rightarrow> poll_out option list" where
  "run_pollers fuel env r req mimes =
     map (\<lambda>i. poller fuel (codecs env) (pollers env i) r req (mimes ! i)) [0..<length mimes]"

text \<open>
  \<open>Run\<close> returns the log it wrote before and after polling, and how it ended; \<open>None\<close>
  when some poller has not returned within the fuel (\<open>wg.Wait()\<close> still blocks).
\<close>

definition Run :: "nat \<Rightarrow> run_env \<Rightarrow> Parameters \<Rightarrow> (log_entry list \<times> run_end) option" where
  "Run fuel env params =
     (case (ignore_err (extractRegistration (codecs env) params),
            ignore_err (ExtractScanReq (codecs env) params),
            ignore_err (extractMimeTypes params)) of
        (Some r, Some req, Some ms) \<Rightarrow>
          (let mimes = requested_mimes params
           in case param params JobParamRegistration of
                Some (JString registration) \<Rightarrow>
                  (let log1 = [PrintJSONParameter JobParamRegistration registration]
                   in case (req, removeAuthInfo (codecs env) req) of
                        (Some req', Some (str, logged)) \<Rightarrow>
                          (let log2 = log1 @ (case logged of None \<Rightarrow> [] | Some e \<Rightarrow> [LogError e])
                                        @ [PrintJSONParameter JobParameterRequest str,
                                           LogMimeTypes mimes]
                           in case ClientPool_Get env r of
                                Some err \<Rightarrow>
                                  (let e = Wrap err ''scan job: get client''
                                   in Some (log2 @ [LogError e], Returned (Some e)))
                              | None \<Rightarrow>
                                  (case SubmitScan env req' of
                                     Some err \<Rightarrow>
                                       (let e = Wrap err ''scan job: submit scan request''
                                        in Some (log2 @ [LogError e], Returned (Some e)))
                                   | None \<Rightarrow>
                                       (case those (run_pollers fuel env r req' mimes) of
                                          None \<Rightarrow> None
                                        | Some outs \<Rightarrow>
                                            if list_ex (\<lambda>out. ending out = Crashed) outs
                                            then Some (log2, Crash)
                                            else
                                              (let err = merge_errs None (map slot outs)
                                               in Some (log2 @ (case err of None \<Rightarrow> []
                                                                | Some e \<Rightarrow> [LogError e]),
                                                        Returned err)))))
                      | _ \<Rightarrow> Some (log1, Crash))
              | _ \<Rightarrow> Some ([], Crash))
      | _ \<Rightarrow> Some ([], Crash))"

section \<open>Notions used to state the properties of Run\<close>

text \<open>The errors recorded in the slots, in index order.\<close>

fun recorded :: "error option list \<Rightarrow> error list" where
  "recorded [] = []"
| "recorded (None # errs) = recorded errs"
| "recorded (Some e # errs) = e # recorded errs"

text \<open>Messages joined by a colon and a space.\<close>

fun joined :: "string list \<Rightarrow> string" where
  "joined [] = []"
| "joined [x] = x"
| "joined (x # y # ys) = x @ '': '' @ joined (y # ys)"

section \<open>Example data for the scan job\<close>

definition ex_registration :: Registration where
  "ex_registration = \<lparr> rg_UUID = ''reg-1'', rg_URL = ''http://scanner'' \<rparr>"

definition ex_scan_request :: "string \<Rightarrow> ScanRequest" where
  "ex_scan_request credential =
     \<lparr> sr_Artifact = Some \<lparr> art_Repository = ''library/app'', art_Digest = ''sha256:abc'',
                             art_Tag = ''v1'' \<rparr>,
       sr_Registry = Some \<lparr> reg_URL = ''http://registry'', reg_Authorization = credential \<rparr> \<rparr>"

definition ex_render :: "ScanRequest \<Rightarrow> string" where
  "ex_render req =
     (case sr_Artifact req of None \<Rightarrow> ''-'' | Some a \<Rightarrow> art_Digest a) @ '' '' @
     (case sr_Registry req of None \<Rightarrow> ''-''
      | Some g \<Rightarrow> reg_URL g @ '' '' @ reg_Authorization g)"

definition ex_codecs :: codec_env where
  "ex_codecs =
     \<lparr> Registration_FromJSON =
         (\<lambda>s. if s = ''{reg-1}'' then Inr ex_registration else Inl (New ''bad registration'')),
       Registration_Validate =
         (\<lambda>r. if rg_UUID r = [] then Some (New ''malformed uuid'') else None),
       ScanRequest_FromJSON =
         (\<lambda>s. if s = ''{req-1}'' then Inr (ex_scan_request ''Bearer s3cr3t'')
              else Inl (New ''bad scan request'')),
       ScanRequest_Validate =
         (\<lambda>q. if sr_Artifact q = None then Some (New ''missing artifact'') else None),
       ScanRequest_ToJSON = (\<lambda>q. (ex_render q, None)),
       json_Marshal_cir =
         (\<lambda>c. Inr (cir_Digest c @ ''|'' @ cir_RegistrationUUID c @ ''|'' @ cir_MimeType c
                    @ ''|'' @ cir_RawReport c)),
       json_Unmarshal_cir = (\<lambda>s c. (c, Some (New ''not used''))) \<rparr>"

definition ex_params :: "jvalue list \<Rightarrow> Parameters" where
  "ex_params mimes =
     Some [JobParamRegistration \<mapsto> JString ''{reg-1}'',
           JobParameterRequest \<mapsto> JString ''{req-1}'',
           JobParameterMimes \<mapsto> JList mimes]"

text \<open>
  A poller world with no latency, no cancellation, a resolver and a check-in that accept
  everything, and the scanner replies given.
\<close>

definition ex_poller :: "(nat \<Rightarrow> report_result) \<Rightarrow> poller_env" where
  "ex_poller replies =
     \<lparr> started_at = 0,
       GetScanReport = (\<lambda>k. (0, replies k)),
       ResolveData = (\<lambda>m raw. None),
       Checkin = (\<lambda>s. None),
       sys_done_at = None,
       favoured = (\<lambda>k. Tick) \<rparr>"

text \<open>The scanner answers not ready, retry after 1000 seconds, twice; then the report.\<close>

definition slow_replies :: "nat \<Rightarrow> report_result" where
  "slow_replies k = (if k < 2 then NotReady 1000 else Report ''{}'')"

text \<open>The scanner answers not ready with a retry-after of 9223372037 seconds, then the report.\<close>

definition huge_replies :: "nat \<Rightarrow> report_result" where
  "huge_replies k = (if k < 1 then NotReady 9223372037 else Report ''{}'')"

definition ex_run_env :: "(nat \<Rightarrow> poller_env) \<Rightarrow> run_env" where
  "ex_run_env ps =
     \<lparr> codecs = ex_codecs, ClientPool_Get = (\<lambda>r. None), SubmitScan = (\<lambda>q. None),
       pollers = ps \<rparr>"

text \<open>Three pollers: the first gets its report at once, the scanner fails the other two.\<close>

definition ex_mixed :: "nat \<Rightarrow> poller_env" where
  "ex_mixed i = ex_poller (\<lambda>k. if i = 0 then Report ''{}'' else Failed (New ''scanner gone''))"

text \<open>The example codecs with the JSON of the standard library for check-in reports.\<close>

definition go_codecs :: codec_env where
  "go_codecs =
     ex_codecs \<lparr> json_Marshal_cir := (\<lambda>cir. Inr (go_Marshal cir)),
                 json_Unmarshal_cir :=
                   (\<lambda>data cir. case go_Unmarshal data cir of
                                  Some res \<Rightarrow> res
                                | None \<Rightarrow> (cir, Some (New ''not described''))) \<rparr>"

definition empty_report :: CheckInReport where
  "empty_report = \<lparr> cir_Digest = [], cir_RegistrationUUID = [], cir_MimeType = [],
                     cir_RawReport = [] \<rparr>"

text \<open>
  A report whose raw report holds a quote, a \<open><\<close>, a line feed, a two-byte, a three-byte
  (U+2028) and a four-byte sequence.
\<close>

definition ex_report :: CheckInReport where
  "ex_report =
     \<lparr> cir_Digest = ''sha256:abc'', cir_RegistrationUUID = ''reg-1'',
       cir_MimeType = ''application/vnd.report.v1'',
       cir_RawReport = [CHR ''{'', CHR 0x22, CHR ''a'', CHR 0x22, CHR '':'', CHR ''<'', CHR 0xC3,
                        CHR 0xA9, CHR 0x0A, CHR 0xE2, CHR 0x80, CHR 0xA8, CHR 0xF0, CHR 0x9F,
                        CHR 0x98, CHR 0x80, CHR ''}''] \<rparr>"

text \<open>A report whose raw report is the single byte FF, which is not UTF-8.\<close>

definition bad_report :: CheckInReport where
  "bad_report = ex_report \<lparr> cir_RawReport := [CHR 0xFF] \<rparr>"

section \<open>Properties of the admin job handlers\<close>

text \<open>
  A request that passed \<open>Valid\<close> and whose schedule type is neither \<open>None\<close> nor \<open>Manual\<close>
  has one of the four periodic types.
\<close>

lemma Valid_periodic_types:
  assumes "ajr_Schedule ajr = Some sp" and "Valid cron_parses ajr = []"
    and "sp_Type sp \<noteq> ScheduleNone" and "sp_Type sp \<noteq> ScheduleManual"
  shows "sp_Type sp \<in> {ScheduleHourly, ScheduleDaily, ScheduleWeekly, ScheduleCustom}"
    and "JobKind ajr = Some JobKindPeriodic"
  using assms by (auto simp add: Valid_def JobKind_def split: if_splits)

lemma GetAdminJobs_call_runner [simp]:
  "GetAdminJobs n k (call_runner c w) = GetAdminJobs n k w"
  by (simp add: GetAdminJobs_def call_runner_def)

lemma GetAdminJobs_Delete:
  "GetAdminJobs n k (DeleteAdminJob i w) = filter (\<lambda>j. aj_ID j \<noteq> i) (GetAdminJobs n k w)"
  by (auto simp add: GetAdminJobs_def DeleteAdminJob_def intro: filter_cong)

lemma GetAdminJobs_SetUUID:
  "GetAdminJobs n k (SetAdminJobUUID i u w) =
     map (\<lambda>j. if aj_ID j = i then j \<lparr> aj_UUID := u \<rparr> else j) (GetAdminJobs n k w)"
  by (simp add: GetAdminJobs_def SetAdminJobUUID_def filter_map o_def if_distrib cong: if_cong)

lemma GetAdminJobs_Add:
  "GetAdminJobs n k (snd (AddAdminJob name kind cron w)) =
     GetAdminJobs n k w @
       (if name = n \<and> kind = k
        then [\<lparr> aj_ID = next_id w, aj_Name = name, aj_Kind = kind, aj_Cron = cron,
                 aj_UUID = [], aj_Status = [] \<rparr>]
        else [])"
  by (simp add: GetAdminJobs_def AddAdminJob_def)

lemma fst_AddAdminJob [simp]: "fst (AddAdminJob name kind cron w) = next_id w"
  by (simp add: AddAdminJob_def)

lemma count_Delete_le: "periodic_count n (DeleteAdminJob i w) \<le> periodic_count n w"
  by (simp add: periodic_count_def GetAdminJobs_Delete)

lemma count_SetUUID [simp]: "periodic_count n (SetAdminJobUUID i u w) = periodic_count n w"
  by (simp add: periodic_count_def GetAdminJobs_SetUUID)

lemma count_call_runner [simp]: "periodic_count n (call_runner c w) = periodic_count n w"
  by (simp add: periodic_count_def)

lemma count_Add:
  "periodic_count n (snd (AddAdminJob name kind cron w)) =
     periodic_count n w + (if name = n \<and> kind = JobKindPeriodic then 1 else 0)"
  by (simp add: periodic_count_def GetAdminJobs_Add)

lemma IsPeriodic_JobKind:
  "IsPeriodic ajr = Some b \<Longrightarrow> (the (JobKind ajr) = JobKindPeriodic) = b"
  by (auto simp add: IsPeriodic_def)

text \<open>The store after submit is one of four shapes.\<close>

lemma submit_cases:
  assumes "IsPeriodic ajr = Some b"
  shows "snd (submit env ajr w) = w
       \<or> ((b \<longrightarrow> periodic_count (ajr_Name ajr) w = 0) \<and>
          (\<exists>cron c. let w2 = call_runner c (snd (AddAdminJob (ajr_Name ajr) (the (JobKind ajr)) cron w))
             in snd (submit env ajr w) = w2
              \<or> snd (submit env ajr w) = DeleteAdminJob (next_id w) w2
              \<or> (\<exists>u. snd (submit env ajr w) = SetAdminJobUUID (next_id w) u w2)))"
  using assms
  by (auto simp add: submit_def Let_def periodic_count_def split_beta
      split: sum.splits client_error.splits)

lemma amo_call_runner: "at_most_one_periodic w \<Longrightarrow> at_most_one_periodic (call_runner c w)"
  by (simp add: at_most_one_periodic_def)

lemma amo_SetUUID: "at_most_one_periodic w \<Longrightarrow> at_most_one_periodic (SetAdminJobUUID i u w)"
  by (simp add: at_most_one_periodic_def)

lemma amo_Delete: "at_most_one_periodic w \<Longrightarrow> at_most_one_periodic (DeleteAdminJob i w)"
  unfolding at_most_one_periodic_def
  using count_Delete_le order_trans by blast

lemma amo_Add:
  assumes "at_most_one_periodic w"
    and "kind = JobKindPeriodic \<longrightarrow> periodic_count name w = 0"
  shows "at_most_one_periodic (snd (AddAdminJob name kind cron w))"
  using assms by (auto simp add: at_most_one_periodic_def count_Add)

lemma submit_preserves:
  assumes "at_most_one_periodic w"
  shows "at_most_one_periodic (snd (submit env ajr w))"
proof (cases "IsPeriodic ajr")
  case None
  then show ?thesis using assms by (simp add: submit_def)
next
  case (Some b)
  have kind: "(the (JobKind ajr) = JobKindPeriodic) = b"
    using Some by (rule IsPeriodic_JobKind)
  from submit_cases [OF Some, of env w] show ?thesis
  proof (elim disjE conjE exE)
    assume "snd (submit env ajr w) = w"
    then show ?thesis using assms by simp
  next
    fix cron c
    assume z: "b \<longrightarrow> periodic_count (ajr_Name ajr) w = 0"
      and sh: "let w2 = call_runner c (snd (AddAdminJob (ajr_Name ajr) (the (JobKind ajr)) cron w))
             in snd (submit env ajr w) = w2
              \<or> snd (submit env ajr w) = DeleteAdminJob (next_id w) w2
              \<or> (\<exists>u. snd (submit env ajr w) = SetAdminJobUUID (next_id w) u w2)"
    have "at_most_one_periodic (snd (AddAdminJob (ajr_Name ajr) (the (JobKind ajr)) cron w))"
      using assms z kind by (intro amo_Add) auto
    then have w2: "at_most_one_periodic
        (call_runner c (snd (AddAdminJob (ajr_Name ajr) (the (JobKind ajr)) cron w)))"
      by (rule amo_call_runner)
    from sh show ?thesis
      unfolding Let_def using w2 amo_Delete [OF w2] amo_SetUUID [OF w2] by metis
  qed
qed

lemma updateSchedule_preserves:
  assumes "at_most_one_periodic w"
  shows "at_most_one_periodic (snd (updateSchedule env ajr w))"
proof -
  have del: "at_most_one_periodic (DeleteAdminJob i (call_runner c w))" for i c
    using assms by (intro amo_Delete amo_call_runner)
  have run: "at_most_one_periodic (call_runner c w)" for c
    using assms by (rule amo_call_runner)
  show ?thesis
    using assms submit_preserves [OF del] del run
    by (simp add: updateSchedule_def Let_def split: option.splits list.splits)
qed

lemma apply_op_preserves:
  "at_most_one_periodic w \<Longrightarrow> at_most_one_periodic (snd (apply_op x w))"
  by (cases x) (simp_all add: submit_preserves updateSchedule_preserves)

lemma run_ops_preserves:
  "at_most_one_periodic w \<Longrightarrow> at_most_one_periodic (run_ops ops w)"
  by (induction ops arbitrary: w) (simp_all add: apply_op_preserves)


lemma updateSchedule_reaches_stop:
  assumes "ajr_Schedule ajr = Some sp" and "sp_Type sp \<noteq> ScheduleManual"
    and "us_GetAdminJobs_err env = None"
    and "GetAdminJobs (ajr_Name ajr) JobKindPeriodic w = [j]"
  shows "updateSchedule env ajr w =
           (let w1 = call_runner (PostAction (aj_UUID j) JobActionStop) w
            in if stop_is_fatal (us_PostAction env (aj_UUID j))
               then (RenderError StatusInternalServerError, w1)
               else if us_DeleteAdminJob_err env \<noteq> None
               then (RenderError StatusInternalServerError, w1)
               else if sp_Type sp \<noteq> ScheduleNone
               then submit (us_submit env) ajr (DeleteAdminJob (aj_ID j) w1)
               else (NoError, DeleteAdminJob (aj_ID j) w1))"
  using assms by (simp add: updateSchedule_def Let_def)

lemma submit_existing_periodic:
  assumes "IsPeriodic ajr = Some True" and "1 \<le> periodic_count (ajr_Name ajr) w"
  shows "submit env ajr w =
           (RenderError (if sb_GetAdminJobs_err env = None then StatusPreconditionFailed
                         else StatusInternalServerError), w)"
  using assms by (auto simp add: submit_def periodic_count_def)

lemma submit_success:
  assumes "JobKind ajr = Some kind"
    and "kind = JobKindPeriodic \<longrightarrow> GetAdminJobs (ajr_Name ajr) JobKindPeriodic w = []"
    and "kind = JobKindPeriodic \<longrightarrow> sb_GetAdminJobs_err env = None"
    and "sb_AddAdminJob_err env = None"
    and "job = the (ToJob (InternalCoreURL env) (ajr \<lparr> ajr_ID := next_id w \<rparr>))"
  shows "submit env ajr w =
          (let w2 = call_runner (SubmitJob job)
                      (snd (AddAdminJob (ajr_Name ajr) kind (CronString (json_Marshal env) ajr) w))
           in case sb_SubmitJob env job of
                Inl err \<Rightarrow>
                  (RenderError (case err of HTTPError code msg \<Rightarrow>
                                   if code = StatusConflict then StatusConflict
                                   else StatusInternalServerError
                                | OtherError msg \<Rightarrow> StatusInternalServerError),
                   if sb_DeleteAdminJob_err env \<noteq> None then w2
                   else DeleteAdminJob (next_id w) w2)
              | Inr uuid \<Rightarrow>
                  if sb_SetAdminJobUUID_err env \<noteq> None
                  then (RenderError StatusInternalServerError, w2)
                  else (NoError, SetAdminJobUUID (next_id w) uuid w2))"
  using assms
  by (auto simp add: submit_def IsPeriodic_def Let_def split_beta AddAdminJob_def
      split: sum.splits client_error.splits)

lemmas ex_defs = ex_job_def ex_world_def ex_submit_env_def ex_update_env_def ex_getlog_env_def
  ex_req_def empty_world_def

lemmas const_defs = ScheduleHourly_def ScheduleDaily_def ScheduleWeekly_def ScheduleCustom_def
  ScheduleManual_def ScheduleNone_def JobKindGeneric_def JobKindPeriodic_def JobActionStop_def
  StatusNotFound_def StatusConflict_def StatusPreconditionFailed_def StatusInternalServerError_def

text \<open>
  Claim C1, as amended. Starting from a store with at most one periodic record per name,
  every sequence of \<open>submit\<close> and \<open>updateSchedule\<close> requests, whatever the store and the
  job service answer, leaves at most one periodic record per name after each of its
  prefixes. A periodic \<open>submit\<close> issued while a periodic record of that name exists
  changes nothing in the store and fails: with status 412 (precondition failed) when the
  store answers the lookup, with status 500 when the lookup itself fails.
\<close>

theorem C1_uniqueness:
  assumes "at_most_one_periodic w"
  shows "(\<forall>k. at_most_one_periodic (run_ops (take k ops) w))
       \<and> (\<forall>env ajr. IsPeriodic ajr = Some True
             \<and> 1 \<le> periodic_count (ajr_Name ajr) (run_ops ops w) \<longrightarrow>
           submit env ajr (run_ops ops w) =
             (RenderError (if sb_GetAdminJobs_err env = None then StatusPreconditionFailed
                           else StatusInternalServerError), run_ops ops w))"
  using assms by (simp add: run_ops_preserves submit_existing_periodic)

lemma ex_ops_run:
  "run_ops ex_ops empty_world =
     \<lparr> jobs = [\<lparr> aj_ID = 1, aj_Name = ''scan-all'', aj_Kind = JobKindPeriodic,
                 aj_Cron = ''{}'', aj_UUID = ''uuid-2'', aj_Status = [] \<rparr>],
       next_id = 2,
       runner_calls = [SubmitJob \<lparr> jd_Name = ''scan-all'', jd_Parameters = Map.empty,
                                   jd_JobKind = JobKindPeriodic, jd_Cron = ''0 0 2 * * *'',
                                   jd_IsUnique = True,
                                   jd_StatusHook = ''http://core/service/notifications/jobs/adminjob/1'' \<rparr>] \<rparr>"
  by (simp add: ex_ops_def ex_defs const_defs submit_def IsPeriodic_def JobKind_def GetAdminJobs_def
      AddAdminJob_def ToJob_def CronString_def Itoa_def digits.simps call_runner_def SetAdminJobUUID_def Let_def)

text \<open>
  The theorem at work: after one periodic submit of \<open>scan-all\<close> on the empty store there
  is exactly one periodic record, and a second periodic submit is refused with 412.
\<close>

theorem C1_uniqueness_witness:
  "at_most_one_periodic empty_world
   \<and> at_most_one_periodic (run_ops ex_ops empty_world)
   \<and> periodic_count ''scan-all'' (run_ops ex_ops empty_world) = 1
   \<and> submit ex_submit_env (ex_req ScheduleDaily) (run_ops ex_ops empty_world) =
        (RenderError StatusPreconditionFailed, run_ops ex_ops empty_world)"
proof -
  have h: "at_most_one_periodic empty_world"
    by (simp add: at_most_one_periodic_def periodic_count_def GetAdminJobs_def empty_world_def)
  have c: "periodic_count ''scan-all'' (run_ops ex_ops empty_world) = 1"
    by (simp add: ex_ops_run periodic_count_def GetAdminJobs_def)
  have p: "IsPeriodic (ex_req ScheduleDaily) = Some True"
    by (simp add: IsPeriodic_def JobKind_def ex_req_def)
  have n: "ajr_Name (ex_req ScheduleDaily) = ''scan-all''" "sb_GetAdminJobs_err ex_submit_env = None"
    by (simp_all add: ex_req_def ex_submit_env_def)
  from C1_uniqueness [OF h, of ex_ops] have
    a: "at_most_one_periodic (run_ops (take (length ex_ops) ex_ops) empty_world)"
    and b: "IsPeriodic (ex_req ScheduleDaily) = Some True
             \<and> 1 \<le> periodic_count (ajr_Name (ex_req ScheduleDaily)) (run_ops ex_ops empty_world) \<longrightarrow>
           submit ex_submit_env (ex_req ScheduleDaily) (run_ops ex_ops empty_world) =
             (RenderError (if sb_GetAdminJobs_err ex_submit_env = None then StatusPreconditionFailed
                           else StatusInternalServerError), run_ops ex_ops empty_world)"
    by blast+
  from a b h c p n show ?thesis by simp
qed

text \<open>
  Claim C1 as written promises the precondition error for every periodic submit that
  meets an existing record. When the lookup in the store fails, the handler answers 500.
\<close>

theorem C1_counterexample:
  "IsPeriodic (ex_req ScheduleDaily) = Some True
   \<and> periodic_count (ajr_Name (ex_req ScheduleDaily)) ex_world = 1
   \<and> submit (ex_submit_env \<lparr> sb_GetAdminJobs_err := Some ''connection lost'' \<rparr>)
        (ex_req ScheduleDaily) ex_world = (RenderError 500, ex_world)"
  by (simp add: submit_def IsPeriodic_def JobKind_def ex_defs const_defs periodic_count_def
      GetAdminJobs_def)

text \<open>
  Claim C4, as amended. Given exactly one periodic record \<open>j\<close> for the name, a lookup that
  succeeds, a stop call that succeeds or answers 404, and a delete that succeeds:
  with schedule type \<open>None\<close>, \<open>updateSchedule\<close> asks the job service to stop \<open>j\<close>, removes
  the record, creates nothing and leaves no periodic record for the name;
  with one of the four periodic schedule types, and the store accepting the new record,
  it leaves exactly one periodic record when the job service accepts the new job: a new
  record, with the next id of the store and the UUID the job service returned; when the
  job service rejects the new job (and the compensating delete succeeds) it fails and
  leaves no periodic record for the name.
\<close>

theorem C4_schedule_replacement:
  assumes "ajr_Schedule ajr = Some sp"
    and "GetAdminJobs (ajr_Name ajr) JobKindPeriodic w = [j]"
    and "us_GetAdminJobs_err env = None"
    and "\<not> stop_is_fatal (us_PostAction env (aj_UUID j))"
    and "us_DeleteAdminJob_err env = None"
    and "w' = snd (updateSchedule env ajr w)"
    and "job = the (ToJob (InternalCoreURL (us_submit env)) (ajr \<lparr> ajr_ID := next_id w \<rparr>))"
  shows "(sp_Type sp = ScheduleNone \<longrightarrow>
            fst (updateSchedule env ajr w) = NoError
            \<and> runner_calls w' = runner_calls w @ [PostAction (aj_UUID j) JobActionStop]
            \<and> jobs w' = filter (\<lambda>x. aj_ID x \<noteq> aj_ID j) (jobs w)
            \<and> next_id w' = next_id w
            \<and> GetAdminJobs (ajr_Name ajr) JobKindPeriodic w' = [])
       \<and> (sp_Type sp \<in> {ScheduleHourly, ScheduleDaily, ScheduleWeekly, ScheduleCustom}
            \<and> sb_GetAdminJobs_err (us_submit env) = None
            \<and> sb_AddAdminJob_err (us_submit env) = None \<longrightarrow>
            (\<forall>uuid. sb_SubmitJob (us_submit env) job = Inr uuid
                 \<and> sb_SetAdminJobUUID_err (us_submit env) = None \<longrightarrow>
               fst (updateSchedule env ajr w) = NoError
               \<and> runner_calls w' =
                   runner_calls w @ [PostAction (aj_UUID j) JobActionStop, SubmitJob job]
               \<and> GetAdminJobs (ajr_Name ajr) JobKindPeriodic w' =
                   [\<lparr> aj_ID = next_id w, aj_Name = ajr_Name ajr, aj_Kind = JobKindPeriodic,
                       aj_Cron = CronString (json_Marshal (us_submit env)) ajr,
                       aj_UUID = uuid, aj_Status = [] \<rparr>])
            \<and> (\<forall>err. sb_SubmitJob (us_submit env) job = Inl err
                 \<and> sb_DeleteAdminJob_err (us_submit env) = None \<longrightarrow>
               fst (updateSchedule env ajr w) \<noteq> NoError
               \<and> GetAdminJobs (ajr_Name ajr) JobKindPeriodic w' = []))"
proof (rule conjI; rule impI)
  assume ty: "sp_Type sp = ScheduleNone"
  have nm: "sp_Type sp \<noteq> ScheduleManual"
    using ty by (simp add: ScheduleNone_def ScheduleManual_def)
  have eq: "updateSchedule env ajr w =
      (NoError, DeleteAdminJob (aj_ID j) (call_runner (PostAction (aj_UUID j) JobActionStop) w))"
    using updateSchedule_reaches_stop [OF assms(1) nm assms(3) assms(2)] assms(4,5) ty
    by (simp add: Let_def)
  have "fst (updateSchedule env ajr w) = NoError" by (simp add: eq)
  moreover have "runner_calls w' = runner_calls w @ [PostAction (aj_UUID j) JobActionStop]"
    by (simp add: assms(6) eq DeleteAdminJob_def call_runner_def)
  moreover have "jobs w' = filter (\<lambda>x. aj_ID x \<noteq> aj_ID j) (jobs w)"
    by (simp add: assms(6) eq DeleteAdminJob_def call_runner_def)
  moreover have "next_id w' = next_id w"
    by (simp add: assms(6) eq DeleteAdminJob_def call_runner_def)
  moreover have "GetAdminJobs (ajr_Name ajr) JobKindPeriodic w' = []"
    by (simp add: assms(6) eq GetAdminJobs_Delete assms(2))
  ultimately show "fst (updateSchedule env ajr w) = NoError
            \<and> runner_calls w' = runner_calls w @ [PostAction (aj_UUID j) JobActionStop]
            \<and> jobs w' = filter (\<lambda>x. aj_ID x \<noteq> aj_ID j) (jobs w)
            \<and> next_id w' = next_id w
            \<and> GetAdminJobs (ajr_Name ajr) JobKindPeriodic w' = []"
    by blast
next
  assume a: "sp_Type sp \<in> {ScheduleHourly, ScheduleDaily, ScheduleWeekly, ScheduleCustom}
            \<and> sb_GetAdminJobs_err (us_submit env) = None
            \<and> sb_AddAdminJob_err (us_submit env) = None"
  define w1 where "w1 = DeleteAdminJob (aj_ID j) (call_runner (PostAction (aj_UUID j) JobActionStop) w)"
  have nm: "sp_Type sp \<noteq> ScheduleManual" and nn: "sp_Type sp \<noteq> ScheduleNone"
    using a by (auto simp add: const_defs)
  have kind: "JobKind ajr = Some JobKindPeriodic"
    using a assms(1) by (auto simp add: JobKind_def)
  have eq: "updateSchedule env ajr w = submit (us_submit env) ajr w1"
    using updateSchedule_reaches_stop [OF assms(1) nm assms(3) assms(2)] assms(4,5) nn
    by (simp add: Let_def w1_def)
  have gone: "GetAdminJobs (ajr_Name ajr) JobKindPeriodic w1 = []"
    by (simp add: w1_def GetAdminJobs_Delete assms(2))
  have nid: "next_id w1 = next_id w" and rc: "runner_calls w1 = runner_calls w @ [PostAction (aj_UUID j) JobActionStop]"
    by (simp_all add: w1_def DeleteAdminJob_def call_runner_def)
  have job: "job = the (ToJob (InternalCoreURL (us_submit env)) (ajr \<lparr> ajr_ID := next_id w1 \<rparr>))"
    by (simp add: assms(7) nid)
  note sub = submit_success [OF kind _ _ _ job]
  have sub': "submit (us_submit env) ajr w1 =
          (let w2 = call_runner (SubmitJob job)
                      (snd (AddAdminJob (ajr_Name ajr) JobKindPeriodic
                              (CronString (json_Marshal (us_submit env)) ajr) w1))
           in case sb_SubmitJob (us_submit env) job of
                Inl err \<Rightarrow>
                  (RenderError (case err of HTTPError code msg \<Rightarrow>
                                   if code = StatusConflict then StatusConflict
                                   else StatusInternalServerError
                                | OtherError msg \<Rightarrow> StatusInternalServerError),
                   if sb_DeleteAdminJob_err (us_submit env) \<noteq> None then w2
                   else DeleteAdminJob (next_id w1) w2)
              | Inr uuid \<Rightarrow>
                  if sb_SetAdminJobUUID_err (us_submit env) \<noteq> None
                  then (RenderError StatusInternalServerError, w2)
                  else (NoError, SetAdminJobUUID (next_id w1) uuid w2))"
    using sub gone a by simp
  show "(\<forall>uuid. sb_SubmitJob (us_submit env) job = Inr uuid
                 \<and> sb_SetAdminJobUUID_err (us_submit env) = None \<longrightarrow>
               fst (updateSchedule env ajr w) = NoError
               \<and> runner_calls w' =
                   runner_calls w @ [PostAction (aj_UUID j) JobActionStop, SubmitJob job]
               \<and> GetAdminJobs (ajr_Name ajr) JobKindPeriodic w' =
                   [\<lparr> aj_ID = next_id w, aj_Name = ajr_Name ajr, aj_Kind = JobKindPeriodic,
                       aj_Cron = CronString (json_Marshal (us_submit env)) ajr,
                       aj_UUID = uuid, aj_Status = [] \<rparr>])
            \<and> (\<forall>err. sb_SubmitJob (us_submit env) job = Inl err
                 \<and> sb_DeleteAdminJob_err (us_submit env) = None \<longrightarrow>
               fst (updateSchedule env ajr w) \<noteq> NoError
               \<and> GetAdminJobs (ajr_Name ajr) JobKindPeriodic w' = [])"
  proof (intro conjI allI impI)
    fix uuid
    assume ok: "sb_SubmitJob (us_submit env) job = Inr uuid
                 \<and> sb_SetAdminJobUUID_err (us_submit env) = None"
    have r: "updateSchedule env ajr w =
       (NoError, SetAdminJobUUID (next_id w) uuid (call_runner (SubmitJob job)
                      (snd (AddAdminJob (ajr_Name ajr) JobKindPeriodic
                              (CronString (json_Marshal (us_submit env)) ajr) w1))))"
      using ok by (simp add: eq sub' Let_def nid)
    show "fst (updateSchedule env ajr w) = NoError" by (simp add: r)
    show "runner_calls w' =
                   runner_calls w @ [PostAction (aj_UUID j) JobActionStop, SubmitJob job]"
      by (simp add: assms(6) r SetAdminJobUUID_def call_runner_def AddAdminJob_def rc)
    show "GetAdminJobs (ajr_Name ajr) JobKindPeriodic w' =
                   [\<lparr> aj_ID = next_id w, aj_Name = ajr_Name ajr, aj_Kind = JobKindPeriodic,
                       aj_Cron = CronString (json_Marshal (us_submit env)) ajr,
                       aj_UUID = uuid, aj_Status = [] \<rparr>]"
      by (simp add: assms(6) r GetAdminJobs_SetUUID GetAdminJobs_Add gone nid)
  next
    fix err
    assume ko: "sb_SubmitJob (us_submit env) job = Inl err
                 \<and> sb_DeleteAdminJob_err (us_submit env) = None"
    have r: "snd (updateSchedule env ajr w) =
       DeleteAdminJob (next_id w) (call_runner (SubmitJob job)
                      (snd (AddAdminJob (ajr_Name ajr) JobKindPeriodic
                              (CronString (json_Marshal (us_submit env)) ajr) w1)))"
      and f: "fst (updateSchedule env ajr w) \<noteq> NoError"
      using ko by (simp_all add: eq sub' Let_def nid)
    show "fst (updateSchedule env ajr w) \<noteq> NoError" by (rule f)
    show "GetAdminJobs (ajr_Name ajr) JobKindPeriodic w' = []"
      by (simp add: assms(6) r GetAdminJobs_Delete GetAdminJobs_Add gone nid)
  qed
qed

lemmas aj_eval = updateSchedule_def submit_def getLog_def IsPeriodic_def JobKind_def
  GetAdminJobs_def GetAdminJob_def AddAdminJob_def DeleteAdminJob_def SetAdminJobUUID_def
  call_runner_def ToJob_def CronString_def Itoa_def digits.simps stop_is_fatal_def Let_def

text \<open>
  The theorem at work on a store holding one periodic \<open>scan-all\<close> record.
\<close>

theorem C4_schedule_replacement_witness:
  "GetAdminJobs ''scan-all'' JobKindPeriodic ex_world = [ex_job]
   \<and> fst (updateSchedule ex_update_env (ex_req ScheduleNone) ex_world) = NoError
   \<and> GetAdminJobs ''scan-all'' JobKindPeriodic
        (snd (updateSchedule ex_update_env (ex_req ScheduleNone) ex_world)) = []
   \<and> fst (updateSchedule ex_update_env (ex_req ScheduleDaily) ex_world) = NoError
   \<and> GetAdminJobs ''scan-all'' JobKindPeriodic
        (snd (updateSchedule ex_update_env (ex_req ScheduleDaily) ex_world)) =
       [\<lparr> aj_ID = 2, aj_Name = ''scan-all'', aj_Kind = JobKindPeriodic, aj_Cron = ''{}'',
           aj_UUID = ''uuid-2'', aj_Status = [] \<rparr>]"
proof -
  have one: "GetAdminJobs (ajr_Name (ex_req t)) JobKindPeriodic ex_world = [ex_job]" for t
    by (simp add: GetAdminJobs_def ex_defs)
  have sched: "ajr_Schedule (ex_req t) = Some \<lparr> sp_Type = t, sp_Cron = ''0 0 2 * * *'' \<rparr>" for t
    by (simp add: ex_req_def)
  have env: "us_GetAdminJobs_err ex_update_env = None"
    "\<not> stop_is_fatal (us_PostAction ex_update_env (aj_UUID ex_job))"
    "us_DeleteAdminJob_err ex_update_env = None"
    by (simp_all add: ex_update_env_def stop_is_fatal_def)
  note a = C4_schedule_replacement [OF sched one env refl refl, of ScheduleNone]
  note b = C4_schedule_replacement [OF sched one env refl refl, of ScheduleDaily]
  have sub: "sb_GetAdminJobs_err (us_submit ex_update_env) = None"
    "sb_AddAdminJob_err (us_submit ex_update_env) = None"
    "sb_SetAdminJobUUID_err (us_submit ex_update_env) = None"
    "sb_SubmitJob (us_submit ex_update_env) x = Inr ''uuid-2''" for x
    by (simp_all add: ex_update_env_def ex_submit_env_def)
  from a b one [of ScheduleNone] sub show ?thesis
    by (simp add: ex_req_def ex_world_def ex_update_env_def ex_submit_env_def CronString_def)
qed

text \<open>
  Claim C4 as written promises exactly one periodic record after an update with a
  schedule type other than \<open>None\<close> and \<open>Manual\<close>. When the job service rejects the new
  job, the old record is already deleted and the new one is removed again: none is left.
\<close>

theorem C4_counterexample:
  "GetAdminJobs ''scan-all'' JobKindPeriodic ex_world = [ex_job]
   \<and> sp_Type (the (ajr_Schedule (ex_req ScheduleDaily))) \<noteq> ScheduleNone
   \<and> sp_Type (the (ajr_Schedule (ex_req ScheduleDaily))) \<noteq> ScheduleManual
   \<and> GetAdminJobs ''scan-all'' JobKindPeriodic
        (snd (updateSchedule
               (ex_update_env \<lparr> us_submit :=
                  ex_submit_env \<lparr> sb_SubmitJob := (\<lambda>j. Inl (OtherError ''connection refused'')) \<rparr> \<rparr>)
               (ex_req ScheduleDaily) ex_world)) = []"
  by (simp add: aj_eval ex_defs const_defs)

text \<open>
  Claim C7. When \<open>updateSchedule\<close> reaches the stop call and the job service answers it
  with an error: on an HTTP error with code 404 the handler goes on to delete the record
  and (unless the type is \<open>None\<close>) to submit the new job, exactly as it does when the stop
  call succeeds; on any other error it fails with status 500, the record untouched.
\<close>

theorem C7_stop_not_found_tolerated:
  assumes "ajr_Schedule ajr = Some sp" and "sp_Type sp \<noteq> ScheduleManual"
    and "us_GetAdminJobs_err env = None"
    and "GetAdminJobs (ajr_Name ajr) JobKindPeriodic w = [j]"
    and "us_PostAction env (aj_UUID j) = Some e"
    and "w1 = call_runner (PostAction (aj_UUID j) JobActionStop) w"
  shows "((\<exists>msg. e = HTTPError StatusNotFound msg) \<longrightarrow>
            updateSchedule env ajr w =
              (if us_DeleteAdminJob_err env \<noteq> None
               then (RenderError StatusInternalServerError, w1)
               else if sp_Type sp \<noteq> ScheduleNone
               then submit (us_submit env) ajr (DeleteAdminJob (aj_ID j) w1)
               else (NoError, DeleteAdminJob (aj_ID j) w1))
            \<and> updateSchedule env ajr w = updateSchedule (env \<lparr> us_PostAction := (\<lambda>u. None) \<rparr>) ajr w)
       \<and> ((\<forall>msg. e \<noteq> HTTPError StatusNotFound msg) \<longrightarrow>
            updateSchedule env ajr w = (RenderError StatusInternalServerError, w1))"
  using assms
  by (cases e) (auto simp add: updateSchedule_def stop_is_fatal_def Let_def)

text \<open>
  The theorem at work: a 404 from the stop call lets the update remove the record, a 503
  fails the update and leaves the record.
\<close>

theorem C7_stop_not_found_tolerated_witness:
  "updateSchedule (ex_update_env \<lparr> us_PostAction := (\<lambda>u. Some (HTTPError 404 ''unknown job'')) \<rparr>)
       (ex_req ScheduleNone) ex_world =
     (NoError, \<lparr> jobs = [], next_id = 2, runner_calls = [PostAction ''uuid-1'' JobActionStop] \<rparr>)
   \<and> updateSchedule (ex_update_env \<lparr> us_PostAction := (\<lambda>u. Some (HTTPError 503 ''unavailable'')) \<rparr>)
       (ex_req ScheduleNone) ex_world =
     (RenderError 500, \<lparr> jobs = [ex_job], next_id = 2,
                          runner_calls = [PostAction ''uuid-1'' JobActionStop] \<rparr>)"
proof -
  have one: "GetAdminJobs (ajr_Name (ex_req t)) JobKindPeriodic ex_world = [ex_job]" for t
    by (simp add: GetAdminJobs_def ex_defs)
  have sched: "ajr_Schedule (ex_req t) = Some \<lparr> sp_Type = t, sp_Cron = ''0 0 2 * * *'' \<rparr>" for t
    by (simp add: ex_req_def)
  have nm: "sp_Type \<lparr> sp_Type = ScheduleNone, sp_Cron = ''0 0 2 * * *'' \<rparr> \<noteq> ScheduleManual"
    by (simp add: const_defs)
  have g: "us_GetAdminJobs_err (ex_update_env \<lparr> us_PostAction := f \<rparr>) = None" for f
    by (simp add: ex_update_env_def)
  have p: "us_PostAction (ex_update_env \<lparr> us_PostAction := (\<lambda>u. Some x) \<rparr>) (aj_UUID ex_job) = Some x" for x
    by simp
  note a = C7_stop_not_found_tolerated [OF sched nm g one p refl, of "HTTPError 404 ''unknown job''"]
  note b = C7_stop_not_found_tolerated [OF sched nm g one p refl, of "HTTPError 503 ''unavailable''"]
  from a b show ?thesis
    by (simp add: const_defs ex_defs DeleteAdminJob_def call_runner_def)
qed

text \<open>
  Claim C9, as amended. When the record exists and the job service fails to return the
  log: an HTTP error of the job service is surfaced with the job service's own status
  code (404 for not found), an error of any other type with status 500.
\<close>

theorem C9_getLog_status:
  assumes "gl_GetAdminJob_err env = None" and "GetAdminJob i w = Some job"
    and "gl_GetJobLog env (aj_UUID job) = Inl e"
  shows "error_status (fst (getLog env i w)) =
           Some (case e of HTTPError code msg \<Rightarrow> code
                 | OtherError msg \<Rightarrow> StatusInternalServerError)"
  using assms by (cases e) (simp_all add: getLog_def Let_def)

text \<open>
  The theorem at work: a 404 of the job service is surfaced as 404, a transport error as 500.
\<close>

theorem C9_getLog_status_witness:
  "error_status (fst (getLog (ex_getlog_env \<lparr> gl_GetJobLog := (\<lambda>u. Inl (HTTPError 404 ''no such job'')) \<rparr>)
      1 ex_world)) = Some 404
   \<and> error_status (fst (getLog (ex_getlog_env \<lparr> gl_GetJobLog := (\<lambda>u. Inl (OtherError ''timeout'')) \<rparr>)
      1 ex_world)) = Some 500"
proof -
  have j: "GetAdminJob 1 ex_world = Some ex_job"
    by (simp add: GetAdminJob_def ex_defs)
  have g: "gl_GetAdminJob_err (ex_getlog_env \<lparr> gl_GetJobLog := f \<rparr>) = None" for f
    by (simp add: ex_getlog_env_def)
  have p: "gl_GetJobLog (ex_getlog_env \<lparr> gl_GetJobLog := (\<lambda>u. Inl x) \<rparr>) (aj_UUID ex_job) = Inl x" for x
    by simp
  from C9_getLog_status [OF g j p, of "HTTPError 404 ''no such job''"]
       C9_getLog_status [OF g j p, of "OtherError ''timeout''"]
  show ?thesis by (simp add: const_defs)
qed

text \<open>
  Claim C9 as written promises status 500 for every error of the job service other than
  not found. An HTTP error with code 409 is surfaced as 409.
\<close>

theorem C9_counterexample:
  "GetAdminJob 1 ex_world = Some ex_job
   \<and> error_status (fst (getLog (ex_getlog_env \<lparr> gl_GetJobLog := (\<lambda>u. Inl (HTTPError 409 ''busy'')) \<rparr>)
        1 ex_world)) = Some 409"
  by (simp add: getLog_def GetAdminJob_def ex_defs Let_def)

section \<open>Properties of the scan job\<close>

lemmas scan_consts = JobParamRegistration_def JobParameterRequest_def JobParameterMimes_def
  Second_def Minute_def checkTimeout_def firstCheckInterval_def

lemmas scan_ex_defs = ex_registration_def ex_scan_request_def ex_render_def ex_codecs_def
  ex_params_def ex_poller_def slow_replies_def huge_replies_def ex_run_env_def

lemmas extract_defs = Validate_def extractRegistration_def ExtractScanReq_def
  extractMimeTypes_def param_def malformed_def missing_def quoted_def

lemma mimes_loop_Value:
  "mimes_loop l acc = Value mimes \<Longrightarrow> \<forall>v \<in> set l. \<exists>s. v = JString s"
proof (induction l arbitrary: acc)
  case Nil
  then show ?case by simp
next
  case (Cons v l)
  then show ?case
    by (cases v) (auto split: option.splits)
qed

text \<open>What \<open>Validate\<close> has checked when it returns nil.\<close>

lemma Validate_Value:
  assumes "Validate env params = Value u"
  shows "params \<noteq> None
       \<and> (\<exists>s r. param params JobParamRegistration = Some (JString s)
              \<and> Registration_FromJSON env s = Inr r \<and> Registration_Validate env r = None)
       \<and> (\<exists>s q. param params JobParameterRequest = Some (JString s)
              \<and> ScanRequest_FromJSON env s = Inr q \<and> ScanRequest_Validate env q = None)
       \<and> (\<exists>l. param params JobParameterMimes = Some (JList l)
              \<and> (\<forall>v \<in> set l. \<exists>s. v = JString s))"
proof -
  have p: "params \<noteq> None"
    using assms by (auto simp add: Validate_def split: if_splits)
  have r: "\<exists>x. extractRegistration env params = Value x"
    and q: "\<exists>x. ExtractScanReq env params = Value x"
    and m: "\<exists>x. extractMimeTypes params = Value x"
    using assms p by (auto simp add: Validate_def split: outcome.splits if_splits)
  from r have r': "\<exists>s r. param params JobParamRegistration = Some (JString s)
              \<and> Registration_FromJSON env s = Inr r \<and> Registration_Validate env r = None"
    by (auto simp add: extractRegistration_def malformed_def missing_def
        split: option.splits jvalue.splits sum.splits)
  from q have q': "\<exists>s q. param params JobParameterRequest = Some (JString s)
              \<and> ScanRequest_FromJSON env s = Inr q \<and> ScanRequest_Validate env q = None"
    by (auto simp add: ExtractScanReq_def malformed_def missing_def
        split: option.splits jvalue.splits sum.splits)
  from m have m': "\<exists>l. param params JobParameterMimes = Some (JList l)
              \<and> (\<forall>v \<in> set l. \<exists>s. v = JString s)"
    by (auto simp add: extractMimeTypes_def malformed_def missing_def
        split: option.splits jvalue.splits dest: mimes_loop_Value)
  from p r' q' m' show ?thesis by blast
qed

lemma mimes_loop_Panic: "mimes_loop l acc = Panic \<Longrightarrow> JNil \<in> set l"
proof (induction l arbitrary: acc)
  case Nil
  then show ?case by simp
next
  case (Cons v l)
  then show ?case
    by (cases v) (auto split: option.splits)
qed

lemma malformed_Panic: "(malformed key expected v :: 'a outcome) = Panic \<Longrightarrow> v = JNil"
  by (cases v) (simp_all add: malformed_def)

text \<open>\<open>Validate\<close> panics only on a nil value: in one of the three entries or in the mime-type list.\<close>

lemma Validate_Panic:
  assumes "Validate env params = Panic"
  shows "param params JobParamRegistration = Some JNil
       \<or> param params JobParameterRequest = Some JNil
       \<or> param params JobParameterMimes = Some JNil
       \<or> (\<exists>l. param params JobParameterMimes = Some (JList l) \<and> JNil \<in> set l)"
proof -
  from assms consider "extractRegistration env params = Panic"
    | "ExtractScanReq env params = Panic" | "extractMimeTypes params = Panic"
    by (auto simp add: Validate_def split: if_splits outcome.splits)
  then show ?thesis
  proof cases
    case 1
    then have "param params JobParamRegistration = Some JNil"
      by (auto simp add: extractRegistration_def missing_def
          split: option.splits jvalue.splits sum.splits dest: malformed_Panic)
    then show ?thesis by simp
  next
    case 2
    then have "param params JobParameterRequest = Some JNil"
      by (auto simp add: ExtractScanReq_def missing_def
          split: option.splits jvalue.splits sum.splits dest: malformed_Panic)
    then show ?thesis by simp
  next
    case 3
    then show ?thesis
      by (auto simp add: extractMimeTypes_def missing_def
          split: option.splits jvalue.splits dest: malformed_Panic mimes_loop_Panic)
  qed
qed

text \<open>
  Claim C5 at a failing input. A parameter mapping whose mime-type list holds a nil
  element, or whose registration entry is nil, makes \<open>Validate\<close> panic while it formats
  the error message (\<open>reflect.TypeOf(v).String()\<close> on a nil interface): no error is
  returned. By \<open>Validate_Value\<close> and \<open>Validate_Panic\<close> above, \<open>Validate\<close> returns nil only
  for a mapping with all three entries present, of the right type and valid, and panics
  only on a nil value; so every other defective mapping is answered with an error.
\<close>

theorem C5_validate_panics_on_nil:
  "Validate ex_codecs (ex_params [JString ''application/vnd.report.v1'', JNil]) = Panic
   \<and> Validate ex_codecs (Some [JobParamRegistration \<mapsto> JNil]) = Panic"
  by (simp add: extract_defs scan_ex_defs scan_consts)

lemma Validate_example_ok:
  "Validate ex_codecs (ex_params [JString ''application/vnd.report.v1'']) = Value ()"
  by (simp add: extract_defs scan_ex_defs scan_consts)

lemma Run_logged_request:
  assumes "Run fuel env params = Some (lg, e)"
    and "PrintJSONParameter JobParameterRequest s \<in> set lg"
  shows "\<exists>req. ExtractScanReq (codecs env) params = Value req
            \<and> map_option fst (removeAuthInfo (codecs env) (Some req)) = Some s"
  using assms
  by (auto simp add: Run_def Let_def scan_consts
      split: option.splits jvalue.splits prod.splits outcome.splits if_splits
      elim!: ignore_err.elims)

lemma merge_errs_Some:
  "\<exists>e. merge_errs (Some a) errs = Some e
       \<and> Error e = joined (Error a # map Error (recorded errs))"
proof (induction errs arbitrary: a)
  case Nil
  then show ?case by simp
next
  case (Cons x errs)
  show ?case
  proof (cases x)
    case None
    then show ?thesis using Cons.IH [of a] by simp
  next
    case (Some e')
    from Cons.IH [of "Wrap e' (Error a)"] obtain e where
      e: "merge_errs (Some (Wrap e' (Error a))) errs = Some e"
      and m: "Error e = joined (Error (Wrap e' (Error a)) # map Error (recorded errs))"
      by blast
    have j: "joined ((x @ CHR '':'' # CHR '' '' # y) # zs) =
               x @ CHR '':'' # CHR '' '' # joined (y # zs)" for x y zs
      by (cases zs) simp_all
    from e m show ?thesis using Some by (simp add: j)
  qed
qed

lemma merge_errs_None_iff:
  "(merge_errs None errs = None) = (\<forall>x \<in> set errs. x = None)"
proof (induction errs)
  case Nil
  then show ?case by simp
next
  case (Cons x errs)
  show ?case
  proof (cases x)
    case None
    then show ?thesis using Cons by simp
  next
    case (Some e')
    then show ?thesis using merge_errs_Some [of e' errs] by auto
  qed
qed

lemma merge_errs_message:
  "merge_errs None errs = Some e \<Longrightarrow> Error e = joined (map Error (recorded errs))"
proof (induction errs)
  case Nil
  then show ?case by simp
next
  case (Cons x errs)
  show ?case
  proof (cases x)
    case None
    then show ?thesis using Cons by simp
  next
    case (Some e')
    then show ?thesis using merge_errs_Some [of e' errs] Cons.prems by auto
  qed
qed

lemma on_tick_Stop:
  "on_tick cenv env r req m k t = Stop s e t' \<Longrightarrow>
     (s = None) = (e = CheckedIn \<or> e = Crashed) \<and> e \<noteq> Cancelled \<and> e \<noteq> TimedOut"
  by (auto simp add: on_tick_def Let_def split_beta
      split: report_result.splits option.splits prod.splits if_splits)

lemma poll_loop_slot:
  "poll_loop fuel cenv env r req m k now deadline att = Some out \<Longrightarrow>
     (slot out = None) = (ending out = CheckedIn \<or> ending out = Cancelled \<or> ending out = Crashed)"
proof (induction fuel arbitrary: k now deadline att)
  case 0
  then show ?case by simp
next
  case (Suc fuel)
  obtain c t where sel: "select (favoured env k) now deadline (sys_done_at env) = (c, t)"
    by (cases "select (favoured env k) now deadline (sys_done_at env)")
  show ?case
  proof (cases c)
    case Tick
    show ?thesis
    proof (cases "on_tick cenv env r req m k t")
      case (Again now' deadline')
      then show ?thesis using Suc.prems Suc.IH sel Tick by simp
    next
      case (Stop s e t')
      then show ?thesis using Suc.prems sel Tick on_tick_Stop [OF Stop] by auto
    qed
  next
    case SysDone
    then show ?thesis using Suc.prems sel by auto
  next
    case Timeout
    then show ?thesis using Suc.prems sel by auto
  qed
qed

text \<open>
  Fuel only bounds how long the model watches a poller: a poller that has returned within
  some fuel has returned, with the same result, within any greater fuel.
\<close>

lemma poll_loop_mono:
  "poll_loop f cenv env r req m k now deadline att = Some out \<Longrightarrow> f \<le> f' \<Longrightarrow>
     poll_loop f' cenv env r req m k now deadline att = Some out"
proof (induction f arbitrary: f' k now deadline att)
  case 0
  then show ?case by simp
next
  case (Suc f)
  from Suc.prems(2) obtain g where g: "f' = Suc g" and le: "f \<le> g"
    by (cases f') simp_all
  obtain c t where sel: "select (favoured env k) now deadline (sys_done_at env) = (c, t)"
    by (cases "select (favoured env k) now deadline (sys_done_at env)")
  show ?case
  proof (cases c)
    case Tick
    show ?thesis
    proof (cases "on_tick cenv env r req m k t")
      case (Again now' deadline')
      with Suc.prems(1) sel Tick
      have "poll_loop f cenv env r req m (Suc k) now' deadline' (att @ [t]) = Some out"
        by simp
      from Suc.IH [OF this le] show ?thesis using sel Tick Again g by simp
    next
      case (Stop s e t')
      then show ?thesis using Suc.prems(1) sel Tick g by simp
    qed
  next
    case SysDone
    then show ?thesis using Suc.prems(1) sel g by simp
  next
    case Timeout
    then show ?thesis using Suc.prems(1) sel g by simp
  qed
qed

lemma poller_mono:
  "poller f cenv env r req m = Some out \<Longrightarrow> f \<le> f' \<Longrightarrow> poller f' cenv env r req m = Some out"
  unfolding poller_def by (rule poll_loop_mono)

lemma on_tick_no_crash:
  "sr_Artifact req \<noteq> None \<Longrightarrow> on_tick cenv env (Some r) req m k t = Stop s e t' \<Longrightarrow> e \<noteq> Crashed"
  by (auto simp add: on_tick_def Let_def split_beta
      split: report_result.splits option.splits prod.splits if_splits)

lemma poll_loop_no_crash:
  "sr_Artifact req \<noteq> None \<Longrightarrow>
   poll_loop fuel cenv env (Some r) req m k now deadline att = Some out \<Longrightarrow> ending out \<noteq> Crashed"
proof (induction fuel arbitrary: k now deadline att)
  case 0
  then show ?case by simp
next
  case (Suc fuel)
  obtain c t where sel: "select (favoured env k) now deadline (sys_done_at env) = (c, t)"
    by (cases "select (favoured env k) now deadline (sys_done_at env)")
  show ?case
  proof (cases c)
    case Tick
    show ?thesis
    proof (cases "on_tick cenv env (Some r) req m k t")
      case (Again now' deadline')
      then show ?thesis using Suc.prems Suc.IH sel Tick by simp
    next
      case (Stop s e t')
      then show ?thesis using Suc.prems sel Tick on_tick_no_crash [OF Suc.prems(1) Stop] by auto
    qed
  next
    case SysDone
    then show ?thesis using Suc.prems sel by auto
  next
    case Timeout
    then show ?thesis using Suc.prems sel by auto
  qed
qed

lemma those_nth_Some:
  "length ys = length xs \<Longrightarrow> \<forall>i < length xs. xs ! i = Some (ys ! i) \<Longrightarrow> those xs = Some ys"
proof (induction xs arbitrary: ys)
  case Nil
  then show ?case by simp
next
  case (Cons x xs)
  from Cons.prems(1) obtain y ys' where ys: "ys = y # ys'" and len: "length ys' = length xs"
    by (cases ys) simp_all
  from Cons.prems(2) [rule_format, of 0] ys have x: "x = Some y" by simp
  have "\<forall>i < length xs. xs ! i = Some (ys' ! i)"
  proof (intro allI impI)
    fix i assume "i < length xs"
    with Cons.prems(2) [rule_format, of "Suc i"] ys show "xs ! i = Some (ys' ! i)" by simp
  qed
  from Cons.IH [OF len this] x ys show ?case by simp
qed

lemma those_None_nth:
  "(those xs = None) = (\<exists>i < length xs. xs ! i = None)"
proof (induction xs)
  case Nil
  then show ?case by simp
next
  case (Cons x xs)
  show ?case
  proof (cases x)
    case None
    then show ?thesis by auto
  next
    case (Some y)
    have "(\<exists>i < length (x # xs). (x # xs) ! i = None) = (\<exists>i < length xs. xs ! i = None)"
    proof
      assume "\<exists>i < length (x # xs). (x # xs) ! i = None"
      then obtain i where i: "i < length (x # xs)" "(x # xs) ! i = None" by blast
      with Some obtain j where "i = Suc j" by (cases i) simp_all
      with i show "\<exists>i < length xs. xs ! i = None" by auto
    next
      assume "\<exists>i < length xs. xs ! i = None"
      then obtain i where "i < length xs" "xs ! i = None" by blast
      then have "Suc i < length (x # xs) \<and> (x # xs) ! Suc i = None" by simp
      then show "\<exists>i < length (x # xs). (x # xs) ! i = None" by blast
    qed
    with Cons Some show ?thesis by (simp split: option.splits)
  qed
qed

lemma Run_polling:
  assumes "extractRegistration (codecs env) params = Value r"
    and "ExtractScanReq (codecs env) params = Value req"
    and "extractMimeTypes params = Value mimes"
    and "sr_Registry req \<noteq> None"
    and "ClientPool_Get env (Some r) = None" and "SubmitScan env req = None"
  shows "\<exists>lg. \<forall>fuel. Run fuel env params =
           (case those (run_pollers fuel env (Some r) req mimes) of
              None \<Rightarrow> None
            | Some outs \<Rightarrow>
                if list_ex (\<lambda>out. ending out = Crashed) outs then Some (lg, Crash)
                else Some (lg @ (case merge_errs None (map slot outs) of None \<Rightarrow> []
                                 | Some e \<Rightarrow> [LogError e]),
                           Returned (merge_errs None (map slot outs))))"
proof -
  from assms(1) obtain s where s: "param params JobParamRegistration = Some (JString s)"
    by (auto simp add: extractRegistration_def malformed_def missing_def
        split: option.splits jvalue.splits sum.splits)
  from assms(4) obtain str logged where rm: "removeAuthInfo (codecs env) (Some req) = Some (str, logged)"
    by (auto simp add: removeAuthInfo_def Let_def split_beta)
  show ?thesis
    using assms s rm
    by (intro exI [of _ "[PrintJSONParameter JobParamRegistration s]
                          @ (case logged of None \<Rightarrow> [] | Some e \<Rightarrow> [LogError e])
                          @ [PrintJSONParameter JobParameterRequest str, LogMimeTypes mimes]"])
       (simp add: Run_def Let_def requested_mimes_def split: option.splits)
qed

lemma Run_early:
  assumes "extractRegistration (codecs env) params = Value r"
    and "ExtractScanReq (codecs env) params = Value req"
    and "extractMimeTypes params = Value mimes"
    and "sr_Registry req \<noteq> None"
  shows "(\<forall>err. ClientPool_Get env (Some r) = Some err \<longrightarrow>
            (\<exists>lg. \<forall>fuel. Run fuel env params =
                Some (lg, Returned (Some (Wrap err ''scan job: get client'')))))
       \<and> (\<forall>err. ClientPool_Get env (Some r) = None \<and> SubmitScan env req = Some err \<longrightarrow>
            (\<exists>lg. \<forall>fuel. Run fuel env params =
                Some (lg, Returned (Some (Wrap err ''scan job: submit scan request'')))))"
proof -
  from assms(1) obtain s where s: "param params JobParamRegistration = Some (JString s)"
    by (auto simp add: extractRegistration_def malformed_def missing_def
        split: option.splits jvalue.splits sum.splits)
  from assms(4) obtain str logged where rm: "removeAuthInfo (codecs env) (Some req) = Some (str, logged)"
    by (auto simp add: removeAuthInfo_def Let_def split_beta)
  show ?thesis
    using assms s rm by (simp add: Run_def Let_def requested_mimes_def)
qed

lemma run_pollers_nth:
  "i < length mimes \<Longrightarrow>
     run_pollers fuel env r req mimes ! i = poller fuel (codecs env) (pollers env i) r req (mimes ! i)"
  by (simp add: run_pollers_def)

lemma length_run_pollers [simp]: "length (run_pollers fuel env r req mimes) = length mimes"
  by (simp add: run_pollers_def)

lemma pollers_enough_fuel:
  assumes "\<forall>i < n. \<exists>f. poller f cenv (ps i) r req (mimes ! i) = Some (outs ! i)"
  shows "\<exists>F. \<forall>fuel \<ge> F. \<forall>i < n. poller fuel cenv (ps i) r req (mimes ! i) = Some (outs ! i)"
proof -
  from assms have "\<forall>i. \<exists>f. i < n \<longrightarrow> poller f cenv (ps i) r req (mimes ! i) = Some (outs ! i)"
    by blast
  then obtain f where f: "\<forall>i. i < n \<longrightarrow> poller (f i) cenv (ps i) r req (mimes ! i) = Some (outs ! i)"
    by (rule choice [THEN exE])
  define F where "F = Max (insert 0 (f ` {..<n}))"
  have "poller fuel cenv (ps i) r req (mimes ! i) = Some (outs ! i)" if "F \<le> fuel" and "i < n"
    for fuel i
  proof -
    from that(2) have "f i \<le> F" unfolding F_def by (intro Max_ge) simp_all
    with that(1) have "f i \<le> fuel" by simp
    with f that(2) show ?thesis by (blast intro: poller_mono)
  qed
  then show ?thesis by blast
qed

text \<open>
  Claim C2, as amended. For validated parameters (the three extractions succeed) whose
  request carries its artifact and its registry: when the client cannot be obtained or
  the scan cannot be submitted, \<open>Run\<close> returns that error wrapped, without polling.
  Otherwise \<open>Run\<close> waits for all \<open>n\<close> pollers: it has not returned exactly as long as
  some poller has not returned; and once every poller has returned, \<open>Run\<close> returns, and
  what it returns is the merge of their slots: nil exactly when every poller either
  checked its report in or was stopped by the system context (which records no error),
  and otherwise one error whose message joins the messages of all recorded errors in
  index order.
\<close>

theorem C2_run_merges_errors:
  assumes "extractRegistration (codecs env) params = Value r"
    and "ExtractScanReq (codecs env) params = Value req"
    and "extractMimeTypes params = Value mimes"
    and "sr_Artifact req \<noteq> None" and "sr_Registry req \<noteq> None"
  shows "(\<forall>err. ClientPool_Get env (Some r) = Some err \<longrightarrow>
            (\<exists>lg. \<forall>fuel. Run fuel env params =
                Some (lg, Returned (Some (Wrap err ''scan job: get client'')))))
       \<and> (\<forall>err. ClientPool_Get env (Some r) = None \<and> SubmitScan env req = Some err \<longrightarrow>
            (\<exists>lg. \<forall>fuel. Run fuel env params =
                Some (lg, Returned (Some (Wrap err ''scan job: submit scan request'')))))
       \<and> (ClientPool_Get env (Some r) = None \<and> SubmitScan env req = None \<longrightarrow>
            (\<forall>fuel. (Run fuel env params = None) =
                (\<exists>i < length mimes.
                    poller fuel (codecs env) (pollers env i) (Some r) req (mimes ! i) = None))
          \<and> (\<forall>outs. length outs = length mimes
                \<and> (\<forall>i < length mimes. \<exists>f.
                      poller f (codecs env) (pollers env i) (Some r) req (mimes ! i)
                        = Some (outs ! i)) \<longrightarrow>
               (\<exists>F lg. \<forall>fuel \<ge> F.
                   Run fuel env params = Some (lg, Returned (merge_errs None (map slot outs))))
             \<and> ((merge_errs None (map slot outs) = None) =
                  (\<forall>out \<in> set outs. ending out = CheckedIn \<or> ending out = Cancelled))
             \<and> (\<forall>e. merge_errs None (map slot outs) = Some e \<longrightarrow>
                   Error e = joined (map Error (recorded (map slot outs))))))"
proof -
  note early = Run_early [OF assms(1,2,3,5)]
  have polling: "(\<forall>fuel. (Run fuel env params = None) =
                (\<exists>i < length mimes.
                    poller fuel (codecs env) (pollers env i) (Some r) req (mimes ! i) = None))
          \<and> (\<forall>outs. length outs = length mimes
                \<and> (\<forall>i < length mimes. \<exists>f.
                      poller f (codecs env) (pollers env i) (Some r) req (mimes ! i)
                        = Some (outs ! i)) \<longrightarrow>
               (\<exists>F lg. \<forall>fuel \<ge> F.
                   Run fuel env params = Some (lg, Returned (merge_errs None (map slot outs))))
             \<and> ((merge_errs None (map slot outs) = None) =
                  (\<forall>out \<in> set outs. ending out = CheckedIn \<or> ending out = Cancelled))
             \<and> (\<forall>e. merge_errs None (map slot outs) = Some e \<longrightarrow>
                   Error e = joined (map Error (recorded (map slot outs)))))"
    if c: "ClientPool_Get env (Some r) = None" and s: "SubmitScan env req = None"
  proof -
    from Run_polling [OF assms(1,2,3,5) c s] obtain lg where
      run: "\<And>fuel. Run fuel env params =
           (case those (run_pollers fuel env (Some r) req mimes) of
              None \<Rightarrow> None
            | Some outs \<Rightarrow>
                if list_ex (\<lambda>out. ending out = Crashed) outs then Some (lg, Crash)
                else Some (lg @ (case merge_errs None (map slot outs) of None \<Rightarrow> []
                                 | Some e \<Rightarrow> [LogError e]),
                           Returned (merge_errs None (map slot outs))))"
      by blast
    have waits: "(Run fuel env params = None) =
                (\<exists>i < length mimes.
                    poller fuel (codecs env) (pollers env i) (Some r) req (mimes ! i) = None)"
      for fuel
    proof -
      have "(Run fuel env params = None) = (those (run_pollers fuel env (Some r) req mimes) = None)"
        by (simp add: run split: option.splits)
      also have "\<dots> = (\<exists>i < length mimes. run_pollers fuel env (Some r) req mimes ! i = None)"
        by (simp add: those_None_nth)
      also have "\<dots> = (\<exists>i < length mimes.
                    poller fuel (codecs env) (pollers env i) (Some r) req (mimes ! i) = None)"
        by (simp add: run_pollers_nth cong: conj_cong)
      finally show ?thesis .
    qed
    have merged: "(\<exists>F lg. \<forall>fuel \<ge> F.
                   Run fuel env params = Some (lg, Returned (merge_errs None (map slot outs))))
             \<and> ((merge_errs None (map slot outs) = None) =
                  (\<forall>out \<in> set outs. ending out = CheckedIn \<or> ending out = Cancelled))
             \<and> (\<forall>e. merge_errs None (map slot outs) = Some e \<longrightarrow>
                   Error e = joined (map Error (recorded (map slot outs))))"
      if len: "length outs = length mimes"
        and fin: "\<forall>i < length mimes. \<exists>f.
                      poller f (codecs env) (pollers env i) (Some r) req (mimes ! i)
                        = Some (outs ! i)"
      for outs
    proof -
      have each: "\<exists>i f. poller f (codecs env) (pollers env i) (Some r) req (mimes ! i) = Some out"
        if "out \<in> set outs" for out
      proof -
        from that obtain i where i: "i < length outs" and o: "outs ! i = out"
          by (auto simp add: in_set_conv_nth)
        from fin len i obtain f where
          "poller f (codecs env) (pollers env i) (Some r) req (mimes ! i) = Some (outs ! i)"
          by auto
        with o show ?thesis by blast
      qed
      have nc: "ending out \<noteq> Crashed" if "out \<in> set outs" for out
      proof -
        from each [OF that] obtain i f where
          "poll_loop f (codecs env) (pollers env i) (Some r) req (mimes ! i) 0
             (started_at (pollers env i))
             (fires_at (started_at (pollers env i)) firstCheckInterval) [] = Some out"
          unfolding poller_def by blast
        with assms(4) show ?thesis by (rule poll_loop_no_crash)
      qed
      have sl: "(slot out = None) = (ending out = CheckedIn \<or> ending out = Cancelled)"
        if "out \<in> set outs" for out
      proof -
        from each [OF that] obtain i f where
          "poller f (codecs env) (pollers env i) (Some r) req (mimes ! i) = Some out"
          by blast
        then have "(slot out = None) =
                     (ending out = CheckedIn \<or> ending out = Cancelled \<or> ending out = Crashed)"
          unfolding poller_def by (rule poll_loop_slot)
        then show ?thesis using nc [OF that] by simp
      qed
      from pollers_enough_fuel [OF fin] obtain F where
        F: "\<forall>fuel \<ge> F. \<forall>i < length mimes.
              poller fuel (codecs env) (pollers env i) (Some r) req (mimes ! i) = Some (outs ! i)"
        by blast
      have "Run fuel env params =
              Some (lg @ (case merge_errs None (map slot outs) of None \<Rightarrow> []
                          | Some e \<Rightarrow> [LogError e]),
                    Returned (merge_errs None (map slot outs)))"
        if "F \<le> fuel" for fuel
      proof -
        from F that have "\<forall>i < length (run_pollers fuel env (Some r) req mimes).
                 run_pollers fuel env (Some r) req mimes ! i = Some (outs ! i)"
          by (auto simp add: run_pollers_nth)
        with len have "those (run_pollers fuel env (Some r) req mimes) = Some outs"
          by (intro those_nth_Some) simp_all
        moreover have "\<not> list_ex (\<lambda>out. ending out = Crashed) outs"
          using nc by (auto simp add: list_ex_iff)
        ultimately show ?thesis by (simp add: run)
      qed
      then have ret: "\<exists>F lg. \<forall>fuel \<ge> F.
                   Run fuel env params = Some (lg, Returned (merge_errs None (map slot outs)))"
        by blast
      have nil: "(merge_errs None (map slot outs) = None) =
                  (\<forall>out \<in> set outs. ending out = CheckedIn \<or> ending out = Cancelled)"
        using sl by (simp add: merge_errs_None_iff)
      have msg: "\<forall>e. merge_errs None (map slot outs) = Some e \<longrightarrow>
                   Error e = joined (map Error (recorded (map slot outs)))"
        using merge_errs_message by blast
      from ret nil msg show ?thesis by blast
    qed
    from waits merged show ?thesis by blast
  qed
  from early polling show ?thesis by blast
qed

lemmas poll_eval = poller_def select_def on_tick_def fires_at_def retry_duration_def wrap64_def
  ToJSON_def Let_def

lemma retry_duration_in_range:
  assumes "0 \<le> R" and "R \<le> 9223372036"
  shows "retry_duration R = R * Second"
proof -
  have "0 \<le> R * 1000000000 + 2 ^ 63" and "R * 1000000000 + 2 ^ 63 < (2 ^ 64 :: int)"
    using assms by simp_all
  then have "(R * 1000000000 + 2 ^ 63) mod 2 ^ 64 = R * 1000000000 + (2 ^ 63 :: int)"
    by (rule mod_pos_pos_trivial)
  then show ?thesis by (simp add: retry_duration_def wrap64_def Second_def)
qed

lemma on_tick_not_ready:
  assumes "GetScanReport env k = (took, NotReady R)"
  shows "on_tick cenv env r req m k t =
           Again (t + int took) (fires_at (t + int took) (retry_duration R))"
  using assms by (simp add: on_tick_def Let_def)

text \<open>When the timer case is taken, it is taken at the instant the timer fires.\<close>

lemma select_Tick_at:
  "select fav now deadline done = (Tick, t) \<Longrightarrow> t = max now deadline"
  by (auto simp add: select_def Let_def split: option.splits if_splits select_case.splits)

text \<open>
  Within the range of a 64-bit duration the hint is honoured: after a not-ready answer
  with retry-after \<open>R\<close> the poller records nothing and goes on with its timer set to fire
  \<open>R\<close> seconds after the answer arrived.
\<close>

lemma not_ready_reschedules:
  assumes "select (favoured env k) now deadline (sys_done_at env) = (Tick, t)"
    and "GetScanReport env k = (took, NotReady R)"
    and "0 \<le> R" and "R \<le> 9223372036"
  shows "poll_loop (Suc fuel) cenv env r req m k now deadline att =
           poll_loop fuel cenv env r req m (Suc k) (t + int took)
             (t + int took + R * Second) (att @ [t])"
  using assms
  by (simp add: on_tick_not_ready retry_duration_in_range fires_at_def Second_def)

lemma never_ready_loop:
  "poll_loop fuel cenv (ex_poller (\<lambda>k. NotReady 1000)) r req m k now (now + 1000 * Second) att = None"
proof (induction fuel arbitrary: k now att)
  case 0
  then show ?case by simp
next
  case (Suc fuel)
  have sel: "select (favoured (ex_poller (\<lambda>k. NotReady 1000)) k) now (now + 1000 * Second)
               (sys_done_at (ex_poller (\<lambda>k. NotReady 1000))) = (Tick, now + 1000 * Second)"
    by (simp add: select_def ex_poller_def fires_at_def scan_consts)
  have tick: "on_tick cenv (ex_poller (\<lambda>k. NotReady 1000)) r req m k (now + 1000 * Second) =
                Again (now + 1000 * Second) ((now + 1000 * Second) + 1000 * Second)"
    by (simp add: on_tick_def ex_poller_def fires_at_def retry_duration_def wrap64_def scan_consts)
  show ?case using Suc.IH [of "Suc k" "now + 1000 * Second"] by (simp add: sel tick)
qed

lemma never_ready_poller:
  "poller fuel cenv (ex_poller (\<lambda>k. NotReady 1000)) r req m = None"
proof (cases fuel)
  case 0
  then show ?thesis by (simp add: poller_def)
next
  case (Suc n)
  have sel: "select (favoured (ex_poller (\<lambda>k. NotReady 1000)) 0) 0 (fires_at 0 firstCheckInterval)
               (sys_done_at (ex_poller (\<lambda>k. NotReady 1000))) = (Tick, 2 * Second)"
    by (simp add: select_def ex_poller_def fires_at_def scan_consts)
  have tick: "on_tick cenv (ex_poller (\<lambda>k. NotReady 1000)) r req m 0 (2 * Second) =
                Again (2 * Second) (2 * Second + 1000 * Second)"
    by (simp add: on_tick_def ex_poller_def fires_at_def retry_duration_def wrap64_def scan_consts)
  have st: "started_at (ex_poller (\<lambda>k. NotReady 1000)) = 0"
    by (simp add: ex_poller_def)
  show ?thesis
    using never_ready_loop [of n cenv r req m "Suc 0" "2 * Second" "[2 * Second]"]
    by (simp add: poller_def Suc st sel tick)
qed

text \<open>
  Claim C3 at a failing input. The channel \<open>time.After(checkTimeout)\<close> is created anew each
  time the \<open>select\<close> is entered, so the 30 minutes run from the latest not-ready answer,
  not from the start of the poller. With a scanner that answers not ready, retry after
  1000 seconds, twice and then delivers, the poller (started at 0) polls at 2, 1002 and
  2002 seconds and checks in at 2002 seconds, after the 1800 seconds of the budget, with
  no timeout recorded; with a scanner that always answers so, the poller never returns.
\<close>

theorem C3_budget_restarts:
  "poller 3 ex_codecs (ex_poller slow_replies) (Some ex_registration)
       (ex_scan_request ''Bearer s3cr3t'') ''application/vnd.report.v1'' =
     Some \<lparr> slot = None, ending = CheckedIn, finished_at = 2002 * Second,
            attempts = [2 * Second, 1002 * Second, 2002 * Second] \<rparr>
   \<and> started_at (ex_poller slow_replies) + checkTimeout = 1800 * Second
   \<and> (\<forall>fuel. poller fuel ex_codecs (ex_poller (\<lambda>k. NotReady 1000)) (Some ex_registration)
                (ex_scan_request ''Bearer s3cr3t'') ''application/vnd.report.v1'' = None)"
proof -
  have a: "poller 3 ex_codecs (ex_poller slow_replies) (Some ex_registration)
       (ex_scan_request ''Bearer s3cr3t'') ''application/vnd.report.v1'' =
     Some \<lparr> slot = None, ending = CheckedIn, finished_at = 2002 * Second,
            attempts = [2 * Second, 1002 * Second, 2002 * Second] \<rparr>"
    by (simp add: poll_eval scan_ex_defs scan_consts eval_nat_numeral)
  have b: "started_at (ex_poller slow_replies) + checkTimeout = 1800 * Second"
    by (simp add: ex_poller_def scan_consts)
  from a b never_ready_poller show ?thesis by blast
qed

text \<open>
  What the endings stand for. A poller that ended \<open>CheckedIn\<close> got a report that the
  resolver accepted and handed its serialisation to the check-in callback, which
  accepted it; a poller that ended \<open>Cancelled\<close> ended when the system context was done.
\<close>

lemma on_tick_CheckedIn:
  assumes "on_tick cenv env r req m k t = Stop s CheckedIn t'"
  shows "\<exists>took raw cir. GetScanReport env k = (took, Report raw)
           \<and> ResolveData env m raw = None
           \<and> cir_MimeType cir = m \<and> cir_RawReport cir = raw
           \<and> snd (ToJSON cenv cir) = None \<and> Checkin env (fst (ToJSON cenv cir)) = None"
proof -
  obtain took res where g: "GetScanReport env k = (took, res)"
    by (cases "GetScanReport env k")
  show ?thesis
  proof (cases res)
    case (NotReady R)
    with g assms show ?thesis by (simp add: on_tick_not_ready)
  next
    case (Failed err)
    with g assms show ?thesis by (simp add: on_tick_def)
  next
    case (Report raw)
    with g assms obtain a reg where
      rd: "ResolveData env m raw = None" and a: "sr_Artifact req = Some a" and r: "r = Some reg"
      by (auto simp add: on_tick_def Let_def split_beta split: option.splits if_splits)
    let ?cir = "\<lparr> cir_Digest = art_Digest a, cir_RegistrationUUID = rg_UUID reg,
                   cir_MimeType = m, cir_RawReport = raw \<rparr>"
    from g Report assms rd a r
    have "snd (ToJSON cenv ?cir) = None \<and> Checkin env (fst (ToJSON cenv ?cir)) = None"
      by (auto simp add: on_tick_def Let_def split_beta split: option.splits if_splits)
    with g Report rd show ?thesis
      by (intro exI [of _ took] exI [of _ raw] exI [of _ ?cir]) simp
  qed
qed

lemma poll_loop_CheckedIn:
  "poll_loop fuel cenv env r req m k now deadline att = Some out \<Longrightarrow> ending out = CheckedIn \<Longrightarrow>
     \<exists>k' took raw cir. GetScanReport env k' = (took, Report raw)
        \<and> ResolveData env m raw = None
        \<and> cir_MimeType cir = m \<and> cir_RawReport cir = raw
        \<and> snd (ToJSON cenv cir) = None \<and> Checkin env (fst (ToJSON cenv cir)) = None"
proof (induction fuel arbitrary: k now deadline att)
  case 0
  then show ?case by simp
next
  case (Suc fuel)
  obtain c t where sel: "select (favoured env k) now deadline (sys_done_at env) = (c, t)"
    by (cases "select (favoured env k) now deadline (sys_done_at env)")
  show ?case
  proof (cases c)
    case Tick
    show ?thesis
    proof (cases "on_tick cenv env r req m k t")
      case (Again now' deadline')
      with Suc.prems sel Tick
      have "poll_loop fuel cenv env r req m (Suc k) now' deadline' (att @ [t]) = Some out"
        by simp
      from Suc.IH [OF this Suc.prems(2)] show ?thesis .
    next
      case (Stop s e t')
      with Suc.prems sel Tick have "e = CheckedIn" by auto
      with Stop on_tick_CheckedIn [of cenv env r req m k t s t'] show ?thesis by blast
    qed
  next
    case SysDone
    then show ?thesis using Suc.prems sel by auto
  next
    case Timeout
    then show ?thesis using Suc.prems sel by auto
  qed
qed

lemma poll_loop_Cancelled:
  "poll_loop fuel cenv env r req m k now deadline att = Some out \<Longrightarrow> ending out = Cancelled \<Longrightarrow>
     \<exists>d. sys_done_at env = Some d \<and> d \<le> finished_at out"
proof (induction fuel arbitrary: k now deadline att)
  case 0
  then show ?case by simp
next
  case (Suc fuel)
  obtain c t where sel: "select (favoured env k) now deadline (sys_done_at env) = (c, t)"
    by (cases "select (favoured env k) now deadline (sys_done_at env)")
  show ?case
  proof (cases c)
    case Tick
    show ?thesis
    proof (cases "on_tick cenv env r req m k t")
      case (Again now' deadline')
      with Suc.prems sel Tick
      have "poll_loop fuel cenv env r req m (Suc k) now' deadline' (att @ [t]) = Some out"
        by simp
      from Suc.IH [OF this Suc.prems(2)] show ?thesis .
    next
      case (Stop s e t')
      with Suc.prems sel Tick on_tick_Stop [OF Stop] show ?thesis by auto
    qed
  next
    case SysDone
    with Suc.prems sel have f: "finished_at out = t" by auto
    from sel SysDone obtain d where "sys_done_at env = Some d" and "d \<le> t"
      by (auto simp add: select_def Let_def split: option.splits if_splits select_case.splits)
    with f show ?thesis by simp
  next
    case Timeout
    then show ?thesis using Suc.prems sel by auto
  qed
qed

text \<open>
  What the attempts of a poller that has returned look like: the first is made when the
  timer first fires; after every attempt but the last the scanner answered not ready,
  and the next attempt was made when the timer, reset on that answer, fired; and a
  poller whose last attempt was answered not ready was stopped by the system context or
  by the timeout.
\<close>

lemma on_tick_Again:
  assumes "on_tick cenv env r req m k t = Again now' deadline'"
  shows "\<exists>took R. GetScanReport env k = (took, NotReady R)
           \<and> now' = t + int took \<and> deadline' = fires_at now' (retry_duration R)"
proof -
  obtain took res where g: "GetScanReport env k = (took, res)"
    by (cases "GetScanReport env k")
  show ?thesis
  proof (cases res)
    case (NotReady R)
    with g assms show ?thesis by (auto simp add: on_tick_not_ready)
  next
    case (Failed err)
    with g assms show ?thesis by (simp add: on_tick_def)
  next
    case (Report raw)
    with g assms show ?thesis
      by (simp add: on_tick_def Let_def split_beta split: option.splits if_splits)
  qed
qed

lemma poll_loop_trace:
  "poll_loop fuel cenv env r req m k now deadline att = Some out \<Longrightarrow>
     \<exists>new. attempts out = att @ new
        \<and> (new = [] \<longrightarrow> ending out = Cancelled \<or> ending out = TimedOut)
        \<and> (new \<noteq> [] \<longrightarrow> new ! 0 = max now deadline)
        \<and> (\<forall>j. Suc j < length new \<longrightarrow>
              (\<exists>took R. GetScanReport env (k + j) = (took, NotReady R)
                  \<and> new ! Suc j = fires_at (new ! j + int took) (retry_duration R)))
        \<and> (\<forall>took R. new \<noteq> [] \<and> GetScanReport env (k + (length new - 1)) = (took, NotReady R) \<longrightarrow>
              ending out = Cancelled \<or> ending out = TimedOut)"
proof (induction fuel arbitrary: k now deadline att)
  case 0
  then show ?case by simp
next
  case (Suc fuel)
  obtain c t where sel: "select (favoured env k) now deadline (sys_done_at env) = (c, t)"
    by (cases "select (favoured env k) now deadline (sys_done_at env)")
  show ?case
  proof (cases c)
    case SysDone
    with Suc.prems sel have "attempts out = att" and "ending out = Cancelled" by auto
    then show ?thesis by (intro exI [of _ "[]"]) simp
  next
    case Timeout
    with Suc.prems sel have "attempts out = att" and "ending out = TimedOut" by auto
    then show ?thesis by (intro exI [of _ "[]"]) simp
  next
    case Tick
    with sel have t: "t = max now deadline" by (simp add: select_Tick_at)
    show ?thesis
    proof (cases "on_tick cenv env r req m k t")
      case (Stop s e t')
      with Suc.prems sel Tick have a: "attempts out = att @ [t]" by auto
      have n: "GetScanReport env k \<noteq> (took, NotReady R)" for took R
        using Stop by (auto simp add: on_tick_not_ready)
      show ?thesis
        by (rule exI [of _ "[t]"]) (simp add: a t n)
    next
      case (Again now' deadline')
      from on_tick_Again [OF Again] obtain took R where
        g: "GetScanReport env k = (took, NotReady R)"
        and now': "now' = t + int took"
        and dl: "deadline' = fires_at now' (retry_duration R)"
        by blast
      from Suc.prems sel Tick Again
      have "poll_loop fuel cenv env r req m (Suc k) now' deadline' (att @ [t]) = Some out"
        by simp
      from Suc.IH [OF this] obtain new where
        a: "attempts out = (att @ [t]) @ new"
        and e: "new = [] \<longrightarrow> ending out = Cancelled \<or> ending out = TimedOut"
        and h: "new \<noteq> [] \<longrightarrow> new ! 0 = max now' deadline'"
        and s: "\<forall>j. Suc j < length new \<longrightarrow>
              (\<exists>took R. GetScanReport env (Suc k + j) = (took, NotReady R)
                  \<and> new ! Suc j = fires_at (new ! j + int took) (retry_duration R))"
        and l: "\<forall>took R. new \<noteq> [] \<and> GetScanReport env (Suc k + (length new - 1)) = (took, NotReady R) \<longrightarrow>
              ending out = Cancelled \<or> ending out = TimedOut"
        by blast
      have mx: "max now' deadline' = deadline'"
        by (simp add: dl fires_at_def)
      have c1: "attempts out = att @ (t # new)" using a by simp
      have c3: "(t # new) ! 0 = max now deadline" using t by simp
      have c4: "\<exists>took R. GetScanReport env (k + j) = (took, NotReady R)
                  \<and> (t # new) ! Suc j = fires_at ((t # new) ! j + int took) (retry_duration R)"
        if "Suc j < length (t # new)" for j
      proof (cases j)
        case 0
        with that have "new \<noteq> []" by auto
        with h mx have "new ! 0 = fires_at (t + int took) (retry_duration R)"
          by (simp add: dl now')
        with g 0 show ?thesis by simp
      next
        case (Suc j')
        with that have "Suc j' < length new" by simp
        with s obtain took' R' where
          "GetScanReport env (Suc k + j') = (took', NotReady R')"
          "new ! Suc j' = fires_at (new ! j' + int took') (retry_duration R')"
          by blast
        with Suc show ?thesis by simp
      qed
      have c5: "ending out = Cancelled \<or> ending out = TimedOut"
        if "GetScanReport env (k + (length (t # new) - 1)) = (took', NotReady R')" for took' R'
      proof (cases "new = []")
        case True
        with e show ?thesis by simp
      next
        case False
        then have eq: "k + (length (t # new) - 1) = Suc k + (length new - 1)"
          by (cases new) simp_all
        from that [unfolded eq] l False show ?thesis by blast
      qed
      from c1 c3 c4 c5 show ?thesis
        by (intro exI [of _ "t # new"]) blast
    qed
  qed
qed

lemma retry_no_sooner:
  assumes "R \<le> 9223372036"
  shows "t + R * Second \<le> fires_at t (retry_duration R)"
    and "0 \<le> R \<Longrightarrow> fires_at t (retry_duration R) = t + R * Second"
proof -
  show e: "fires_at t (retry_duration R) = t + R * Second" if "0 \<le> R"
    using that assms by (simp add: retry_duration_in_range fires_at_def Second_def)
  show "t + R * Second \<le> fires_at t (retry_duration R)"
  proof (cases "0 \<le> R")
    case True
    then show ?thesis using e by simp
  next
    case False
    then have "R * Second \<le> 0" by (simp add: Second_def)
    then show ?thesis by (simp add: fires_at_def)
  qed
qed

text \<open>
  Claim C6, as amended. When the \<open>k\<close>-th report request of a poller is answered not
  ready with a retry-after of \<open>R\<close> seconds, and \<open>R\<close> is at most 9223372036, the greatest
  number of seconds a \<open>time.Duration\<close> holds: the poller records nothing and goes on, its
  timer set to fire no sooner than \<open>R\<close> seconds after the answer (exactly \<open>R\<close> seconds
  after it when \<open>R\<close> is not negative); if the poller makes a next attempt, it makes it
  at that instant; if it makes none, it was stopped by the system context or by the
  timeout, not by the answer. This holds for every \<open>k\<close>, however many not-ready answers
  came before.
\<close>

theorem C6_hint_honoured:
  assumes "GetScanReport env k = (took, NotReady R)" and "R \<le> 9223372036"
  shows "(\<exists>d. on_tick cenv env r req m k t = Again (t + int took) d
            \<and> t + int took + R * Second \<le> d
            \<and> (0 \<le> R \<longrightarrow> d = t + int took + R * Second))
       \<and> (\<forall>fuel out. poller fuel cenv env r req m = Some out \<and> k < length (attempts out) \<longrightarrow>
            (Suc k < length (attempts out) \<longrightarrow>
               attempts out ! k + int took + R * Second \<le> attempts out ! Suc k
               \<and> (0 \<le> R \<longrightarrow> attempts out ! Suc k = attempts out ! k + int took + R * Second))
          \<and> (Suc k = length (attempts out) \<longrightarrow>
               ending out = Cancelled \<or> ending out = TimedOut))"
proof (rule conjI)
  show "\<exists>d. on_tick cenv env r req m k t = Again (t + int took) d
            \<and> t + int took + R * Second \<le> d
            \<and> (0 \<le> R \<longrightarrow> d = t + int took + R * Second)"
    using retry_no_sooner [OF assms(2), of "t + int took"]
    by (simp add: on_tick_not_ready [OF assms(1)])
next
  show "\<forall>fuel out. poller fuel cenv env r req m = Some out \<and> k < length (attempts out) \<longrightarrow>
            (Suc k < length (attempts out) \<longrightarrow>
               attempts out ! k + int took + R * Second \<le> attempts out ! Suc k
               \<and> (0 \<le> R \<longrightarrow> attempts out ! Suc k = attempts out ! k + int took + R * Second))
          \<and> (Suc k = length (attempts out) \<longrightarrow>
               ending out = Cancelled \<or> ending out = TimedOut)"
  proof (intro allI impI, elim conjE)
    fix fuel out
    assume p: "poller fuel cenv env r req m = Some out" and k: "k < length (attempts out)"
    from p [unfolded poller_def, THEN poll_loop_trace] obtain new where
      a: "attempts out = new"
      and s: "\<forall>j. Suc j < length new \<longrightarrow>
              (\<exists>took R. GetScanReport env (0 + j) = (took, NotReady R)
                  \<and> new ! Suc j = fires_at (new ! j + int took) (retry_duration R))"
      and l: "\<forall>took R. new \<noteq> [] \<and> GetScanReport env (0 + (length new - 1)) = (took, NotReady R) \<longrightarrow>
              ending out = Cancelled \<or> ending out = TimedOut"
      by auto
    have nxt: "attempts out ! Suc k = fires_at (attempts out ! k + int took) (retry_duration R)"
      if "Suc k < length (attempts out)"
      using s [rule_format, of k] that a assms(1) by auto
    have last: "ending out = Cancelled \<or> ending out = TimedOut"
      if "Suc k = length (attempts out)"
    proof -
      from that a have "new \<noteq> []" and "0 + (length new - 1) = k" by auto
      with l assms(1) show ?thesis by auto
    qed
    from nxt last retry_no_sooner [OF assms(2), of "attempts out ! k + int took"]
    show "(Suc k < length (attempts out) \<longrightarrow>
               attempts out ! k + int took + R * Second \<le> attempts out ! Suc k
               \<and> (0 \<le> R \<longrightarrow> attempts out ! Suc k = attempts out ! k + int took + R * Second))
          \<and> (Suc k = length (attempts out) \<longrightarrow>
               ending out = Cancelled \<or> ending out = TimedOut)"
      by simp
  qed
qed

text \<open>
  The theorem at work: the scanner answers the first request with retry after 1000
  seconds, and the second attempt is made 1000 seconds after the first.
\<close>

theorem C6_hint_honoured_witness:
  "GetScanReport (ex_poller slow_replies) 0 = (0, NotReady 1000)
   \<and> (1000 :: int) \<le> 9223372036
   \<and> poller 3 ex_codecs (ex_poller slow_replies) (Some ex_registration)
       (ex_scan_request ''Bearer s3cr3t'') ''application/vnd.report.v1'' =
       Some \<lparr> slot = None, ending = CheckedIn, finished_at = 2002 * Second,
              attempts = [2 * Second, 1002 * Second, 2002 * Second] \<rparr>
   \<and> [2 * Second, 1002 * Second, 2002 * Second] ! 1 =
       [2 * Second, 1002 * Second, 2002 * Second] ! 0 + int 0 + 1000 * Second"
proof -
  let ?out = "\<lparr> slot = None, ending = CheckedIn, finished_at = 2002 * Second,
              attempts = [2 * Second, 1002 * Second, 2002 * Second] \<rparr>"
  have g: "GetScanReport (ex_poller slow_replies) 0 = (0, NotReady 1000)"
    by (simp add: ex_poller_def slow_replies_def)
  have b: "(1000 :: int) \<le> 9223372036" by simp
  have p: "poller 3 ex_codecs (ex_poller slow_replies) (Some ex_registration)
       (ex_scan_request ''Bearer s3cr3t'') ''application/vnd.report.v1'' = Some ?out"
    by (simp add: poll_eval scan_ex_defs scan_consts eval_nat_numeral)
  have l: "0 < length (attempts ?out)" "Suc 0 < length (attempts ?out)" by simp_all
  from C6_hint_honoured [OF g b, THEN conjunct2, THEN spec, THEN spec, THEN mp,
                         OF conjI [OF p l(1)], THEN conjunct1, THEN mp, OF l(2), THEN conjunct2]
  have "attempts ?out ! Suc 0 = attempts ?out ! 0 + int 0 + 1000 * Second"
    by simp
  then have "[2 * Second, 1002 * Second, 2002 * Second] ! 1 =
       [2 * Second, 1002 * Second, 2002 * Second] ! 0 + int 0 + 1000 * Second"
    by simp
  with g b p show ?thesis by blast
qed

text \<open>
  Claim C6 as written covers every retry-after value. The value is multiplied by
  \<open>time.Second\<close> in the 64 bits of a \<open>time.Duration\<close>: for 9223372037 seconds the product
  wraps to a negative duration, the timer fires at once, and the next call of
  \<open>GetScanReport\<close> is made at the instant of the answer, not 9223372037 seconds later.
\<close>

theorem C6_counterexample:
  "retry_duration 9223372037 = - 9223372036709551616
   \<and> on_tick ex_codecs (ex_poller huge_replies) (Some ex_registration)
        (ex_scan_request ''Bearer s3cr3t'') ''application/vnd.report.v1'' 0 (2 * Second) =
       Again (2 * Second) (2 * Second)
   \<and> poller 2 ex_codecs (ex_poller huge_replies) (Some ex_registration)
        (ex_scan_request ''Bearer s3cr3t'') ''application/vnd.report.v1'' =
       Some \<lparr> slot = None, ending = CheckedIn, finished_at = 2 * Second,
              attempts = [2 * Second, 2 * Second] \<rparr>"
  by (simp add: poll_eval scan_ex_defs scan_consts eval_nat_numeral)

text \<open>
  Claim C2 as written lets \<open>Run\<close> return nil only if every poller succeeded. A poller
  stopped by the system context records no error and checks nothing in; \<open>Run\<close> returns nil.
\<close>

theorem C2_counterexample:
  "Validate ex_codecs (ex_params [JString ''m1'']) = Value ()
   \<and> Run 1 (ex_run_env (\<lambda>i. (ex_poller (\<lambda>k. Report ''{}'')) \<lparr> sys_done_at := Some Second \<rparr>))
       (ex_params [JString ''m1'']) =
       Some ([PrintJSONParameter ''registration'' ''{reg-1}'',
              PrintJSONParameter ''scanRequest'' ''sha256:abc http://registry [HIDDEN]'',
              LogMimeTypes [''m1'']], Returned None)
   \<and> poller 1 ex_codecs ((ex_poller (\<lambda>k. Report ''{}'')) \<lparr> sys_done_at := Some Second \<rparr>)
        (Some ex_registration) (ex_scan_request ''Bearer s3cr3t'') ''m1'' =
       Some \<lparr> slot = None, ending = Cancelled, finished_at = Second, attempts = [] \<rparr>"
  by (simp add: Run_def run_pollers_def requested_mimes_def removeAuthInfo_def extract_defs
      poll_eval scan_ex_defs scan_consts)

lemma ex_mixed_run:
  "Run 1 (ex_run_env ex_mixed) (ex_params [JString ''m1'', JString ''m2'', JString ''m3'']) =
     Some ([PrintJSONParameter ''registration'' ''{reg-1}'',
            PrintJSONParameter ''scanRequest'' ''sha256:abc http://registry [HIDDEN]'',
            LogMimeTypes [''m1'', ''m2'', ''m3''],
            LogError (Wrap (Wrap (New ''scanner gone'') ''check scan report with mime type m3'')
                       ''check scan report with mime type m2: scanner gone'')],
           Returned (Some (Wrap (Wrap (New ''scanner gone'') ''check scan report with mime type m3'')
                       ''check scan report with mime type m2: scanner gone'')))"
  by (simp add: Run_def run_pollers_def requested_mimes_def removeAuthInfo_def extract_defs
      poll_eval scan_ex_defs scan_consts ex_mixed_def upt_rec)

text \<open>
  The theorem at work on three mime types, the first of which succeeds: with no fuel
  \<open>Run\<close> has not returned, and with enough fuel it returns the error that names the
  second and the third, in this order.
\<close>

theorem C2_run_merges_errors_witness:
  "extractRegistration (codecs (ex_run_env ex_mixed))
      (ex_params [JString ''m1'', JString ''m2'', JString ''m3'']) = Value ex_registration
   \<and> ExtractScanReq (codecs (ex_run_env ex_mixed))
      (ex_params [JString ''m1'', JString ''m2'', JString ''m3'']) =
        Value (ex_scan_request ''Bearer s3cr3t'')
   \<and> extractMimeTypes (ex_params [JString ''m1'', JString ''m2'', JString ''m3'']) =
        Value [''m1'', ''m2'', ''m3'']
   \<and> Run 0 (ex_run_env ex_mixed) (ex_params [JString ''m1'', JString ''m2'', JString ''m3'']) = None
   \<and> (\<exists>F lg. \<forall>fuel \<ge> F.
         Run fuel (ex_run_env ex_mixed) (ex_params [JString ''m1'', JString ''m2'', JString ''m3'']) =
           Some (lg, Returned (Some
             (Wrap (Wrap (New ''scanner gone'') ''check scan report with mime type m3'')
                ''check scan report with mime type m2: scanner gone''))))"
proof -
  let ?p = "ex_params [JString ''m1'', JString ''m2'', JString ''m3'']"
  let ?env = "ex_run_env ex_mixed"
  let ?req = "ex_scan_request ''Bearer s3cr3t''"
  let ?ms = "[''m1'', ''m2'', ''m3'']"
  let ?o = "\<lambda>s e. \<lparr> slot = s, ending = e, finished_at = 2 * Second, attempts = [2 * Second] \<rparr>"
  let ?outs = "[?o None CheckedIn,
                ?o (Some (Wrap (New ''scanner gone'') ''check scan report with mime type m2'')) Rejected,
                ?o (Some (Wrap (New ''scanner gone'') ''check scan report with mime type m3'')) Rejected]"
  have r: "extractRegistration (codecs ?env) ?p = Value ex_registration"
    and q: "ExtractScanReq (codecs ?env) ?p = Value ?req"
    and m: "extractMimeTypes ?p = Value ?ms"
    by (simp_all add: extract_defs scan_ex_defs scan_consts)
  have art: "sr_Artifact ?req \<noteq> None" and reg: "sr_Registry ?req \<noteq> None"
    by (simp_all add: ex_scan_request_def)
  have c: "ClientPool_Get ?env (Some ex_registration) = None \<and> SubmitScan ?env ?req = None"
    by (simp add: ex_run_env_def)
  have p0: "\<exists>i < length ?ms.
              poller 0 (codecs ?env) (pollers ?env i) (Some ex_registration) ?req (?ms ! i) = None"
    by (intro exI [of _ 0]) (simp add: poller_def)
  have fin: "length ?outs = length ?ms
           \<and> (\<forall>i < length ?ms. \<exists>f.
                poller f (codecs ?env) (pollers ?env i) (Some ex_registration) ?req (?ms ! i)
                  = Some (?outs ! i))"
  proof (intro conjI allI impI)
    fix i assume "i < length ?ms"
    then consider "i = 0" | "i = 1" | "i = 2" by (auto simp add: less_Suc_eq)
    then show "\<exists>f. poller f (codecs ?env) (pollers ?env i) (Some ex_registration) ?req (?ms ! i)
                  = Some (?outs ! i)"
    proof cases
      case 1
      then show ?thesis
        by (intro exI [of _ 1]) (simp add: poll_eval scan_ex_defs scan_consts ex_mixed_def)
    next
      case 2
      then show ?thesis
        by (intro exI [of _ 1]) (simp add: poll_eval scan_ex_defs scan_consts ex_mixed_def)
    next
      case 3
      then show ?thesis
        by (intro exI [of _ 1]) (simp add: poll_eval scan_ex_defs scan_consts ex_mixed_def)
    qed
  qed simp
  have mm: "merge_errs None (map slot ?outs) =
              Some (Wrap (Wrap (New ''scanner gone'') ''check scan report with mime type m3'')
                ''check scan report with mime type m2: scanner gone'')"
    by simp
  note poll = C2_run_merges_errors [OF r q m art reg, THEN conjunct2, THEN conjunct2, THEN mp, OF c]
  from poll [THEN conjunct1, THEN spec [where x = 0]] p0
  have w: "Run 0 ?env ?p = None" by blast
  from poll [THEN conjunct2, THEN spec [where x = "?outs"], THEN mp, OF fin, THEN conjunct1]
  have "\<exists>F lg. \<forall>fuel \<ge> F. Run fuel ?env ?p =
           Some (lg, Returned (Some
             (Wrap (Wrap (New ''scanner gone'') ''check scan report with mime type m3'')
                ''check scan report with mime type m2: scanner gone'')))"
    unfolding mm .
  with r q m w show ?thesis by blast
qed

text \<open>
  Claim C8. Whatever \<open>Run\<close> logs under the name of the scan request parameter is the
  string \<open>removeAuthInfo\<close> made of the extracted request. That string is the serialisation
  of a request with the same artifact, the same registry URL and the authorization
  \<open>[HIDDEN]\<close>; so two requests that differ only in the authorization give the same string
  (and the same logged serialisation error, if any).
\<close>

theorem C8_logged_request_hides_credential:
  "(\<forall>lg e s. Run fuel env params = Some (lg, e)
        \<and> PrintJSONParameter JobParameterRequest s \<in> set lg \<longrightarrow>
      (\<exists>req. ExtractScanReq (codecs env) params = Value req
          \<and> map_option fst (removeAuthInfo (codecs env) (Some req)) = Some s))
   \<and> (sr_Registry sr1 = Some g1 \<and> sr_Registry sr2 = Some g2
        \<and> sr_Artifact sr1 = sr_Artifact sr2 \<and> reg_URL g1 = reg_URL g2 \<longrightarrow>
      removeAuthInfo cenv (Some sr1) = removeAuthInfo cenv (Some sr2)
      \<and> removeAuthInfo cenv (Some sr1) =
           (let hidden = \<lparr> sr_Artifact = sr_Artifact sr1,
                            sr_Registry = Some \<lparr> reg_URL = reg_URL g1,
                                                 reg_Authorization = ''[HIDDEN]'' \<rparr> \<rparr>
            in Some (fst (ScanRequest_ToJSON cenv hidden),
                     map_option (\<lambda>e. Wrap e ''scan job: remove auth'')
                       (snd (ScanRequest_ToJSON cenv hidden)))))"
proof (rule conjI)
  show "\<forall>lg e s. Run fuel env params = Some (lg, e)
        \<and> PrintJSONParameter JobParameterRequest s \<in> set lg \<longrightarrow>
      (\<exists>req. ExtractScanReq (codecs env) params = Value req
          \<and> map_option fst (removeAuthInfo (codecs env) (Some req)) = Some s)"
    using Run_logged_request by blast
next
  show "sr_Registry sr1 = Some g1 \<and> sr_Registry sr2 = Some g2
        \<and> sr_Artifact sr1 = sr_Artifact sr2 \<and> reg_URL g1 = reg_URL g2 \<longrightarrow>
      removeAuthInfo cenv (Some sr1) = removeAuthInfo cenv (Some sr2)
      \<and> removeAuthInfo cenv (Some sr1) =
           (let hidden = \<lparr> sr_Artifact = sr_Artifact sr1,
                            sr_Registry = Some \<lparr> reg_URL = reg_URL g1,
                                                 reg_Authorization = ''[HIDDEN]'' \<rparr> \<rparr>
            in Some (fst (ScanRequest_ToJSON cenv hidden),
                     map_option (\<lambda>e. Wrap e ''scan job: remove auth'')
                       (snd (ScanRequest_ToJSON cenv hidden))))"
    by (simp add: removeAuthInfo_def Let_def split_beta)
qed

text \<open>
  The theorem at work: two requests with different credentials are logged alike.
\<close>

theorem C8_logged_request_hides_credential_witness:
  "Run 1 (ex_run_env ex_mixed) (ex_params [JString ''m1'', JString ''m2'', JString ''m3'']) \<noteq> None
   \<and> PrintJSONParameter JobParameterRequest ''sha256:abc http://registry [HIDDEN]''
       \<in> set (fst (the (Run 1 (ex_run_env ex_mixed)
                          (ex_params [JString ''m1'', JString ''m2'', JString ''m3'']))))
   \<and> removeAuthInfo ex_codecs (Some (ex_scan_request ''Bearer s3cr3t'')) =
       Some (''sha256:abc http://registry [HIDDEN]'', None)
   \<and> removeAuthInfo ex_codecs (Some (ex_scan_request ''Bearer s3cr3t'')) =
       removeAuthInfo ex_codecs (Some (ex_scan_request ''Basic b3Ro'')) "
proof -
  let ?g = "\<lambda>c. \<lparr> reg_URL = ''http://registry'', reg_Authorization = c \<rparr>"
  have h: "sr_Registry (ex_scan_request ''Bearer s3cr3t'') = Some (?g ''Bearer s3cr3t'')
        \<and> sr_Registry (ex_scan_request ''Basic b3Ro'') = Some (?g ''Basic b3Ro'')
        \<and> sr_Artifact (ex_scan_request ''Bearer s3cr3t'') = sr_Artifact (ex_scan_request ''Basic b3Ro'')
        \<and> reg_URL (?g ''Bearer s3cr3t'') = reg_URL (?g ''Basic b3Ro'')"
    by (simp add: ex_scan_request_def)
  note t = C8_logged_request_hides_credential
             [of 1 "ex_run_env ex_mixed" "ex_params [JString ''m1'', JString ''m2'', JString ''m3'']"
                 "ex_scan_request ''Bearer s3cr3t''" "?g ''Bearer s3cr3t''"
                 "ex_scan_request ''Basic b3Ro''" "?g ''Basic b3Ro''" ex_codecs]
  from t h have eq: "removeAuthInfo ex_codecs (Some (ex_scan_request ''Bearer s3cr3t'')) =
       removeAuthInfo ex_codecs (Some (ex_scan_request ''Basic b3Ro''))"
    by blast
  have v: "removeAuthInfo ex_codecs (Some (ex_scan_request ''Bearer s3cr3t'')) =
       Some (''sha256:abc http://registry [HIDDEN]'', None)"
    by (simp add: removeAuthInfo_def scan_ex_defs)
  have l: "Run 1 (ex_run_env ex_mixed) (ex_params [JString ''m1'', JString ''m2'', JString ''m3'']) \<noteq> None"
    "PrintJSONParameter JobParameterRequest ''sha256:abc http://registry [HIDDEN]''
       \<in> set (fst (the (Run 1 (ex_run_env ex_mixed)
                          (ex_params [JString ''m1'', JString ''m2'', JString ''m3'']))))"
    unfolding ex_mixed_run by (simp_all add: scan_consts)
  from eq v l show ?thesis by blast
qed

section \<open>Properties of the JSON of check-in reports\<close>

lemma hexval_hex: "n < 16 \<Longrightarrow> hexval (hex n) = Some n"
proof -
  assume "n < 16"
  then have "n < 4 \<or> (4 \<le> n \<and> n < 8) \<or> (8 \<le> n \<and> n < 12) \<or> (12 \<le> n \<and> n < 16)"
    by arith
  moreover have "hexval (hex k) = Some k" if "k < 4" for k
  proof -
    from that have "k = 3 \<or> k = 2 \<or> k = 1 \<or> k = 0" by arith
    then show ?thesis by (elim disjE) (simp_all add: hex_def hexval_def)
  qed
  moreover have "hexval (hex k) = Some k" if "4 \<le> k \<and> k < 8" for k
  proof -
    from that have "k = 7 \<or> k = 6 \<or> k = 5 \<or> k = 4" by arith
    then show ?thesis by (elim disjE) (simp_all add: hex_def hexval_def)
  qed
  moreover have "hexval (hex k) = Some k" if "8 \<le> k \<and> k < 12" for k
  proof -
    from that have "k = 11 \<or> k = 10 \<or> k = 9 \<or> k = 8" by arith
    then show ?thesis by (elim disjE) (simp_all add: hex_def hexval_def)
  qed
  moreover have "hexval (hex k) = Some k" if "12 \<le> k \<and> k < 16" for k
  proof -
    from that have "k = 15 \<or> k = 14 \<or> k = 13 \<or> k = 12" by arith
    then show ?thesis by (elim disjE) (simp_all add: hex_def hexval_def)
  qed
  ultimately show ?thesis by blast
qed

lemma hexval_0: "hexval CHR ''0'' = Some 0" "hexval CHR ''2'' = Some 2"
  "hexval CHR ''f'' = Some 15" "hexval CHR ''d'' = Some 13"
  by (simp_all add: hexval_def)

lemma EncodeRune_ascii: "byte c < 0x80 \<Longrightarrow> EncodeRune (byte c) = [c]"
  by (simp add: EncodeRune_def)

text \<open>An escaped ASCII character is read back as itself.\<close>

lemma string_body_escape_ascii:
  assumes "byte c < 0x80" and "\<not> htmlSafe c"
  shows "string_body (escape_ascii c @ rest) = prepend [c] (string_body rest)"
proof -
  consider "c = CHR 0x5C \<or> c = CHR 0x22" | "c = CHR 0x0A" | "c = CHR 0x0D" | "c = CHR 0x09"
    | "c \<noteq> CHR 0x5C" "c \<noteq> CHR 0x22" "c \<noteq> CHR 0x0A" "c \<noteq> CHR 0x0D" "c \<noteq> CHR 0x09"
    by blast
  then show ?thesis
  proof cases
    case 1
    then show ?thesis by (auto simp add: escape_ascii_def unescape_def)
  next
    case 2
    then show ?thesis by (simp add: escape_ascii_def unescape_def)
  next
    case 3
    then show ?thesis by (simp add: escape_ascii_def unescape_def)
  next
    case 4
    then show ?thesis by (simp add: escape_ascii_def unescape_def)
  next
    case 5
    have h: "hex4 (CHR ''0'' # CHR ''0'' # hex (byte c div 16) # hex (byte c mod 16) # rest)
               = Some (byte c)"
      using assms(1) by (simp add: hex4_def hexval_0 hexval_hex)
    have e: "escape_ascii c =
               [CHR 0x5C, CHR ''u'', CHR ''0'', CHR ''0'', hex (byte c div 16), hex (byte c mod 16)]"
      using 5 by (simp add: escape_ascii_def)
    show ?thesis
      using assms(1) by (simp add: e h EncodeRune_ascii)
  qed
qed

lemma digits2: "z < 64 \<Longrightarrow> (x * 64 + z) div 64 = (x::nat) \<and> (x * 64 + z) mod 64 = z"
  by simp

lemma digits3:
  assumes "y < 64" and "z < 64"
  shows "(x * 4096 + y * 64 + z) div 4096 = (x::nat)
       \<and> (x * 4096 + y * 64 + z) div 64 mod 64 = y
       \<and> (x * 4096 + y * 64 + z) mod 64 = z"
proof -
  define n where "n = x * 4096 + y * 64 + z"
  have e: "n = (x * 64 + y) * 64 + z" by (simp add: n_def)
  have d: "n div 64 = x * 64 + y" and c: "n mod 64 = z"
    using digits2 [OF assms(2), of "x * 64 + y"] by (simp_all only: e)
  have "n div 4096 = n div 64 div 64"
    by (simp add: div_mult2_eq [symmetric])
  then have a: "n div 4096 = x"
    using digits2 [OF assms(1), of x] by (simp only: d)
  have b: "n div 64 mod 64 = y"
    using digits2 [OF assms(1), of x] by (simp only: d)
  from a b c show ?thesis unfolding n_def by blast
qed

lemma digits4:
  assumes "w < 64" and "y < 64" and "z < 64"
  shows "(x * 262144 + w * 4096 + y * 64 + z) div 262144 = (x::nat)
       \<and> (x * 262144 + w * 4096 + y * 64 + z) div 4096 mod 64 = w
       \<and> (x * 262144 + w * 4096 + y * 64 + z) div 64 mod 64 = y
       \<and> (x * 262144 + w * 4096 + y * 64 + z) mod 64 = z"
proof -
  define n where "n = x * 262144 + w * 4096 + y * 64 + z"
  have e: "n = (x * 64 + w) * 4096 + y * 64 + z" by (simp add: n_def)
  note t = digits3 [OF assms(2,3), of "x * 64 + w"]
  have a: "n div 4096 = x * 64 + w" and d: "n div 64 mod 64 = y" "n mod 64 = z"
    using t by (simp_all only: e)
  have "n div 262144 = n div 4096 div 64"
    by (simp add: div_mult2_eq [symmetric])
  then have b: "n div 262144 = x"
    using digits2 [OF assms(1), of x] by (simp only: a)
  have c: "n div 4096 mod 64 = w"
    using digits2 [OF assms(1), of x] by (simp only: a)
  from b c d show ?thesis unfolding n_def by blast
qed

lemma enc2:
  assumes "2 \<le> x" and "x < 32" and "y < 64"
  shows "EncodeRune (x * 64 + y) = [char_of (192 + x), char_of (128 + y)]"
proof -
  have r: "\<not> x * 64 + y < 128" "x * 64 + y < 2048"
    using assms by linarith+
  show ?thesis
    using r digits2 [OF assms(3), of x] by (simp add: EncodeRune_def)
qed

lemma enc3:
  assumes "x < 16" and "y < 64" and "z < 64" and "x = 0 \<longrightarrow> 32 \<le> y" and "x = 13 \<longrightarrow> y < 32"
  shows "EncodeRune (x * 4096 + y * 64 + z)
           = [char_of (224 + x), char_of (128 + y), char_of (128 + z)]"
proof -
  define n where "n = x * 4096 + y * 64 + z"
  have r: "\<not> n < 128" "\<not> n < 2048" "n < 65536" "\<not> 1114111 < n"
    using assms unfolding n_def by (cases "x = 0"; simp)+
  consider "x \<le> 12" | "x = 13" | "14 \<le> x" by linarith
  then have s: "\<not> (55296 \<le> n \<and> n \<le> 57343)"
    using assms unfolding n_def by cases simp_all
  have d: "n div 4096 = x" "n div 64 mod 64 = y" "n mod 64 = z"
    using digits3 [OF assms(2,3), of x] unfolding n_def by blast+
  have "EncodeRune n = [char_of (224 + x), char_of (128 + y), char_of (128 + z)]"
    using r s by (auto simp add: EncodeRune_def d)
  then show ?thesis unfolding n_def .
qed

lemma enc4:
  assumes "x < 5" and "w < 64" and "y < 64" and "z < 64"
    and "x = 0 \<longrightarrow> 16 \<le> w" and "x = 4 \<longrightarrow> w < 16"
  shows "EncodeRune (x * 262144 + w * 4096 + y * 64 + z)
           = [char_of (240 + x), char_of (128 + w), char_of (128 + y), char_of (128 + z)]"
proof -
  define n where "n = x * 262144 + w * 4096 + y * 64 + z"
  have r: "\<not> n < 128" "\<not> n < 2048" "\<not> n < 65536"
    "\<not> (55296 \<le> n \<and> n \<le> 57343)"
    using assms unfolding n_def by (cases "x = 0"; simp)+
  have s: "\<not> 1114111 < n"
    using assms unfolding n_def by (cases "x = 4"; simp)
  have d: "n div 262144 = x" "n div 4096 mod 64 = w" "n div 64 mod 64 = y" "n mod 64 = z"
    using digits4 [OF assms(2,3,4), of x] unfolding n_def by blast+
  have "EncodeRune n
          = [char_of (240 + x), char_of (128 + w), char_of (128 + y), char_of (128 + z)]"
    using r s by (auto simp add: EncodeRune_def d)
  then show ?thesis unfolding n_def .
qed

lemma m1: "k < 64 \<Longrightarrow> (128 + k) mod 64 = (k::nat)"
  using mod_mult_self3 [of 2 64 k] by simp

lemma m2: "(x::nat) < 32 \<Longrightarrow> (192 + x) mod 32 = x"
  using mod_mult_self3 [of 6 32 x] by simp

lemma m3: "(x::nat) < 16 \<Longrightarrow> (224 + x) mod 16 = x"
  using mod_mult_self3 [of 14 16 x] by simp

lemma m4: "(x::nat) < 8 \<Longrightarrow> (240 + x) mod 8 = x"
  using mod_mult_self3 [of 30 8 x] by simp

text \<open>A byte in a range, as an offset from the lower end of the range.\<close>

lemma offset:
  assumes "lo \<le> byte c" and "byte c < lo + m"
  obtains x where "x < m" and "byte c = lo + x" and "char_of (lo + x) = c"
proof
  show "byte c - lo < m" using assms by simp
  show "byte c = lo + (byte c - lo)" using assms by simp
  then show "char_of (lo + (byte c - lo)) = c" by (metis char_of_char)
qed

lemma cont_offset:
  assumes "cont c"
  obtains y where "y < 64" and "byte c = 128 + y" and "char_of (128 + y) = c"
    and "byte c mod 64 = y"
proof -
  from assms have "128 \<le> byte c" "byte c < 128 + 64" by (simp_all add: cont_def)
  then obtain y where y: "y < 64" "byte c = 128 + y" "char_of (128 + y) = c"
    by (rule offset)
  then have "byte c mod 64 = y" by (simp add: m1)
  with y show ?thesis by (rule that)
qed

text \<open>
  A well-formed multi-byte sequence: the rune re-encodes to the bytes it was decoded
  from, and decoding looks at those bytes only.
\<close>

lemma DecodeRune_two:
  assumes "194 \<le> byte c" and "byte c < 224" and "DecodeRune (c # s) = (r, sz)"
    and "\<not> (r = RuneError \<and> sz = 1)"
  shows "sz = 2 \<and> 2 \<le> length (c # s) \<and> EncodeRune r = take 2 (c # s)
       \<and> DecodeRune (take 2 (c # s) @ ys) = (r, 2)"
proof -
  from assms obtain c1 s1 where s: "s = c1 # s1" and c1: "cont c1"
    and sz: "sz = 2" and r: "r = (byte c mod 32) * 64 + byte c1 mod 64"
    by (auto simp add: Let_def split: list.splits if_splits)
  have "192 \<le> byte c" "byte c < 192 + 32" using assms(1,2) by simp_all
  then obtain x where x: "x < 32" "byte c = 192 + x" "char_of (192 + x) = c"
    by (rule offset)
  from c1 obtain y where y: "y < 64" "byte c1 = 128 + y" "char_of (128 + y) = c1"
    "byte c1 mod 64 = y"
    by (rule cont_offset)
  have x2: "2 \<le> x" using assms(1) x(2) by simp
  have r': "r = x * 64 + y" using r x y by (simp add: m2)
  have e: "EncodeRune r = [c, c1]"
    unfolding r' using enc2 [OF x2 x(1) y(1)] x(3) y(3) by simp
  have d: "DecodeRune (take 2 (c # s) @ ys) = (r, 2)"
    using assms(1,2) c1 r by (simp add: s Let_def)
  from sz e d show ?thesis by (simp add: s)
qed

lemma DecodeRune_three:
  assumes "224 \<le> byte c" and "byte c < 240" and "DecodeRune (c # s) = (r, sz)"
    and "\<not> (r = RuneError \<and> sz = 1)"
  shows "sz = 3 \<and> 3 \<le> length (c # s) \<and> EncodeRune r = take 3 (c # s)
       \<and> DecodeRune (take 3 (c # s) @ ys) = (r, 3)"
proof -
  from assms obtain c1 c2 s2 where s: "s = c1 # c2 # s2"
    and lo: "(if byte c = 224 then 160 else 128) \<le> byte c1"
    and hi: "byte c1 \<le> (if byte c = 237 then 159 else 191)"
    and c2: "cont c2" and sz: "sz = 3"
    and r: "r = (byte c mod 16) * 4096 + (byte c1 mod 64) * 64 + byte c2 mod 64"
    by (auto simp add: Let_def split: list.splits if_splits)
  have "224 \<le> byte c" "byte c < 224 + 16" using assms(1,2) by simp_all
  then obtain x where x: "x < 16" "byte c = 224 + x" "char_of (224 + x) = c"
    by (rule offset)
  have "cont c1" using lo hi by (auto simp add: cont_def split: if_splits)
  then obtain y where y: "y < 64" "byte c1 = 128 + y" "char_of (128 + y) = c1"
    "byte c1 mod 64 = y"
    by (rule cont_offset)
  from c2 obtain z where z: "z < 64" "byte c2 = 128 + z" "char_of (128 + z) = c2"
    "byte c2 mod 64 = z"
    by (rule cont_offset)
  have a: "x = 0 \<longrightarrow> 32 \<le> y" using lo x(2) y(2) by (auto split: if_splits)
  have b: "x = 13 \<longrightarrow> y < 32" using hi x(2) y(2) by (auto split: if_splits)
  have r': "r = x * 4096 + y * 64 + z" using r x y z by (simp add: m3)
  have e: "EncodeRune r = [c, c1, c2]"
    unfolding r' using enc3 [OF x(1) y(1) z(1) a b] x(3) y(3) z(3) by simp
  have d: "DecodeRune (take 3 (c # s) @ ys) = (r, 3)"
    using assms(1,2) lo hi c2 r by (simp add: s Let_def)
  from sz e d show ?thesis by (simp add: s)
qed

lemma DecodeRune_four:
  assumes "240 \<le> byte c" and "DecodeRune (c # s) = (r, sz)"
    and "\<not> (r = RuneError \<and> sz = 1)"
  shows "sz = 4 \<and> 4 \<le> length (c # s) \<and> EncodeRune r = take 4 (c # s)
       \<and> DecodeRune (take 4 (c # s) @ ys) = (r, 4)"
proof -
  from assms have top: "byte c \<le> 244"
    by (auto simp add: Let_def split: if_splits)
  from assms top obtain c1 c2 c3 s3 where s: "s = c1 # c2 # c3 # s3"
    and lo: "(if byte c = 240 then 144 else 128) \<le> byte c1"
    and hi: "byte c1 \<le> (if byte c = 244 then 143 else 191)"
    and c2: "cont c2" and c3: "cont c3" and sz: "sz = 4"
    and r: "r = (byte c mod 8) * 262144 + (byte c1 mod 64) * 4096 + (byte c2 mod 64) * 64
                 + byte c3 mod 64"
    by (auto simp add: Let_def split: list.splits if_splits)
  have "240 \<le> byte c" "byte c < 240 + 5" using assms(1) top by simp_all
  then obtain x where x: "x < 5" "byte c = 240 + x" "char_of (240 + x) = c"
    by (rule offset)
  have "cont c1" using lo hi by (auto simp add: cont_def split: if_splits)
  then obtain w where w: "w < 64" "byte c1 = 128 + w" "char_of (128 + w) = c1"
    "byte c1 mod 64 = w"
    by (rule cont_offset)
  from c2 obtain y where y: "y < 64" "byte c2 = 128 + y" "char_of (128 + y) = c2"
    "byte c2 mod 64 = y"
    by (rule cont_offset)
  from c3 obtain z where z: "z < 64" "byte c3 = 128 + z" "char_of (128 + z) = c3"
    "byte c3 mod 64 = z"
    by (rule cont_offset)
  have a: "x = 0 \<longrightarrow> 16 \<le> w" using lo x(2) w(2) by (auto split: if_splits)
  have b: "x = 4 \<longrightarrow> w < 16" using hi x(2) w(2) by (auto split: if_splits)
  have x8: "x < 8" using x(1) by simp
  have r': "r = x * 262144 + w * 4096 + y * 64 + z" using r x w y z by (simp add: m4 [OF x8])
  have e: "EncodeRune r = [c, c1, c2, c3]"
    unfolding r' using enc4 [OF x(1) w(1) y(1) z(1) a b] x(3) w(3) y(3) z(3) by simp
  have d: "DecodeRune (take 4 (c # s) @ ys) = (r, 4)"
    using assms(1) top lo hi c2 c3 r by (simp add: s Let_def)
  from sz e d show ?thesis by (simp add: s)
qed

lemma DecodeRune_valid:
  assumes "128 \<le> byte c" and "DecodeRune (c # s) = (r, sz)"
    and "\<not> (r = RuneError \<and> sz = 1)"
  shows "2 \<le> sz \<and> sz \<le> length (c # s) \<and> EncodeRune r = take sz (c # s)
       \<and> DecodeRune (take sz (c # s) @ ys) = (r, sz)"
proof -
  from assms have lo: "194 \<le> byte c"
    by (auto simp add: Let_def split: if_splits)
  consider "byte c < 224" | "224 \<le> byte c" "byte c < 240" | "240 \<le> byte c"
    by linarith
  then show ?thesis
  proof cases
    case 1
    from DecodeRune_two [OF lo 1 assms(2,3), of ys] show ?thesis by simp
  next
    case 2
    from DecodeRune_three [OF 2 assms(2,3), of ys] show ?thesis by simp
  next
    case 3
    from DecodeRune_four [OF 3 assms(2,3), of ys] show ?thesis by simp
  qed
qed

lemma high_byte_plain:
  assumes "128 \<le> byte c"
  shows "c \<noteq> CHR 0x22" and "c \<noteq> CHR 0x5C" and "\<not> byte c < 32" and "\<not> byte c < 128"
  using assms by auto

lemma safe_plain:
  assumes "htmlSafe c"
  shows "c \<noteq> CHR 0x22" and "c \<noteq> CHR 0x5C" and "\<not> byte c < 32" and "byte c < 128"
  using assms by (auto simp add: htmlSafe_def)

lemma string_body_multibyte:
  assumes "128 \<le> byte c" and "DecodeRune (c # s) = (r, sz)" and "\<not> (r = RuneError \<and> sz = 1)"
  shows "string_body (take sz (c # s) @ ys) = prepend (take sz (c # s)) (string_body ys)"
proof -
  from DecodeRune_valid [OF assms, of ys] have
    sz: "2 \<le> sz" "sz \<le> length (c # s)" and e: "EncodeRune r = take sz (c # s)"
    and d: "DecodeRune (take sz (c # s) @ ys) = (r, sz)"
    by simp_all
  obtain k where k: "sz = Suc k" using sz(1) by (cases sz) simp_all
  have l: "k \<le> length s" using sz(2) k by simp
  have t: "take sz (c # s) @ ys = c # (take k s @ ys)" by (simp add: k)
  have d': "DecodeRune (c # (take k s @ ys)) = (r, Suc k)" using d by (simp add: k)
  have "string_body (c # (take k s @ ys)) = prepend (EncodeRune r) (string_body ys)"
    using high_byte_plain [OF assms(1)] l by (simp add: d' min_absorb2 del: DecodeRune.simps)
  then show ?thesis by (simp only: t e)
qed

lemma prepend_Parsed: "prepend t (Parsed (u, rest)) = Parsed (t @ u, rest)"
  by simp

lemma string_body_escape:
  "valid_utf8 s \<Longrightarrow> string_body (escape_string s @ CHR 0x22 # rest) = Parsed (s, rest)"
proof (induction s rule: length_induct)
  case (1 s)
  show ?case
  proof (cases s)
    case Nil
    then show ?thesis by simp
  next
    case (Cons c s')
    show ?thesis
    proof (cases "byte c < 128")
      case True
      then have v: "valid_utf8 s'" using "1.prems" Cons by simp
      have ih: "string_body (escape_string s' @ CHR 0x22 # rest) = Parsed (s', rest)"
        using "1.IH" v Cons by simp
      show ?thesis
      proof (cases "htmlSafe c")
        case safe: True
        then show ?thesis
          using True safe_plain [OF safe] ih Cons by simp
      next
        case False
        have "string_body (escape_ascii c @ (escape_string s' @ CHR 0x22 # rest))
                = prepend [c] (string_body (escape_string s' @ CHR 0x22 # rest))"
          using True False by (intro string_body_escape_ascii) simp_all
        then show ?thesis using True False ih Cons by simp
      qed
    next
      case False
      obtain r sz where d: "DecodeRune (c # s') = (r, sz)"
        by (cases "DecodeRune (c # s')")
      have hb: "128 \<le> byte c" using False by simp
      have ok: "\<not> (r = RuneError \<and> sz = 1)" and v: "valid_utf8 (drop (sz - 1) s')"
        using "1.prems" Cons False d by (simp_all del: DecodeRune.simps)
      have ih: "string_body (escape_string (drop (sz - 1) s') @ CHR 0x22 # rest)
                  = Parsed (drop (sz - 1) s', rest)"
        using "1.IH" v Cons by simp
      from DecodeRune_valid [OF hb d ok, of "[]"] have
        sz: "2 \<le> sz" "sz \<le> length (c # s')" and e: "EncodeRune r = take sz (c # s')"
        by simp_all
      obtain k where k: "sz = Suc k" using sz(1) by (cases sz) simp_all
      have whole: "take sz (c # s') @ drop (sz - 1) s' = c # s'"
        by (simp add: k)
      show ?thesis
      proof (cases "r = 8232 \<or> r = 8233")
        case sep: True
        have h: "hex4 (CHR ''2'' # CHR ''0'' # CHR ''2'' # hex (r mod 16) # ys) = Some r" for ys
          using sep by (auto simp add: hex4_def hexval_0 hexval_hex)
        have ns: "\<not> 55296 \<le> r" using sep by auto
        have esc: "escape_string (c # s') =
                [CHR 0x5C, CHR ''u'', CHR ''2'', CHR ''0'', CHR ''2'', hex (r mod 16)]
                  @ escape_string (drop (sz - 1) s')"
          using False d ok sep by (simp add: RuneError_def del: DecodeRune.simps)
        have "string_body ([CHR 0x5C, CHR ''u'', CHR ''2'', CHR ''0'', CHR ''2'', hex (r mod 16)]
                  @ (escape_string (drop (sz - 1) s') @ CHR 0x22 # rest))
                = prepend (EncodeRune r)
                    (string_body (escape_string (drop (sz - 1) s') @ CHR 0x22 # rest))"
          using ns by (simp add: h)
        also have "\<dots> = Parsed (take sz (c # s') @ drop (sz - 1) s', rest)"
          by (simp only: ih e prepend_Parsed)
        finally show ?thesis
          by (simp only: Cons esc whole append_assoc)
      next
        case plain: False
        have esc: "escape_string (c # s') =
                take sz (c # s') @ escape_string (drop (sz - 1) s')"
          using False d ok plain by (simp del: DecodeRune.simps)
        have "string_body (take sz (c # s') @ (escape_string (drop (sz - 1) s') @ CHR 0x22 # rest))
                = prepend (take sz (c # s'))
                    (string_body (escape_string (drop (sz - 1) s') @ CHR 0x22 # rest))"
          using hb d ok by (rule string_body_multibyte)
        then show ?thesis
          unfolding Cons esc using ih whole by simp
      qed
    qed
  qed
qed

lemma skip_ws_plain:
  "skip_ws (CHR 0x22 # s) = CHR 0x22 # s" "skip_ws (CHR '':'' # s) = CHR '':'' # s"
  "skip_ws (CHR '','' # s) = CHR '','' # s" "skip_ws (CHR ''}'' # s) = CHR ''}'' # s"
  "skip_ws (CHR ''{'' # s) = CHR ''{'' # s" "skip_ws [] = []"
  by (simp_all add: skip_ws_def is_space_def)

lemma field_value_json_string:
  assumes "\<And>ys. string_body (escape_string v @ CHR 0x22 # ys) = Parsed (v', ys)"
  shows "field_value (json_string v @ rest) = Parsed (Some v', rest)"
  using assms [of rest] by (simp add: field_value_def json_string_def)

lemma key_body:
  "key \<in> field_names \<Longrightarrow> string_body (escape_string key @ CHR 0x22 # rest) = Parsed (key, rest)"
  by (rule string_body_escape) (auto simp add: field_names_def)

text \<open>
  One member of the object, read by the decoder: a key that is a field name, and a string
  literal made by the encoder from \<open>v\<close> that reads back as \<open>v'\<close>.
\<close>

lemma member_comma:
  assumes "key \<in> field_names"
    and "\<And>ys. string_body (escape_string v @ CHR 0x22 # ys) = Parsed (v', ys)"
  shows "members (Suc fuel) (json_string key @ '':'' @ json_string v @ '','' @ rest) cir =
           (case set_field key (Some v') cir of
              Parsed cir' \<Rightarrow> members fuel (skip_ws rest) cir'
            | Invalid \<Rightarrow> Invalid | NotModelled \<Rightarrow> NotModelled)"
proof -
  have k: "string_body (escape_string key @ CHR 0x22 # ys) = Parsed (key, ys)" for ys
    using assms(1) by (rule key_body)
  have q: "json_string key @ ys = CHR 0x22 # (escape_string key @ CHR 0x22 # ys)" for ys
    by (simp add: json_string_def)
  have v: "field_value (json_string v @ ys) = Parsed (Some v', ys)" for ys
    using assms(2) by (rule field_value_json_string)
  have sq: "skip_ws (json_string v @ ys) = json_string v @ ys" for ys
    by (simp add: json_string_def skip_ws_plain)
  show ?thesis
    unfolding q
    by (simp add: k skip_ws_plain sq v split: parsed.splits)
qed

lemma member_last:
  assumes "key \<in> field_names"
    and "\<And>ys. string_body (escape_string v @ CHR 0x22 # ys) = Parsed (v', ys)"
  shows "members (Suc fuel) (json_string key @ '':'' @ json_string v @ ''}'') cir =
           set_field key (Some v') cir"
proof -
  have k: "string_body (escape_string key @ CHR 0x22 # ys) = Parsed (key, ys)" for ys
    using assms(1) by (rule key_body)
  have q: "json_string key @ ys = CHR 0x22 # (escape_string key @ CHR 0x22 # ys)" for ys
    by (simp add: json_string_def)
  have v: "field_value (json_string v @ ys) = Parsed (Some v', ys)" for ys
    using assms(2) by (rule field_value_json_string)
  have sq: "skip_ws (json_string v @ ys) = json_string v @ ys" for ys
    by (simp add: json_string_def skip_ws_plain)
  show ?thesis
    unfolding q
    by (simp add: k skip_ws_plain sq v split: parsed.splits)
qed

text \<open>
  Unmarshalling what was marshalled from \<open>r\<close> gives the report whose fields are what the
  string literals of the fields of \<open>r\<close> read back as.
\<close>

lemma go_Unmarshal_go_Marshal:
  assumes "\<And>ys. string_body (escape_string (cir_Digest r) @ CHR 0x22 # ys) = Parsed (d, ys)"
    and "\<And>ys. string_body (escape_string (cir_RegistrationUUID r) @ CHR 0x22 # ys) = Parsed (u, ys)"
    and "\<And>ys. string_body (escape_string (cir_MimeType r) @ CHR 0x22 # ys) = Parsed (m, ys)"
    and "\<And>ys. string_body (escape_string (cir_RawReport r) @ CHR 0x22 # ys) = Parsed (w, ys)"
  shows "go_Unmarshal (go_Marshal r) cir =
           Some (\<lparr> cir_Digest = d, cir_RegistrationUUID = u, cir_MimeType = m,
                    cir_RawReport = w \<rparr>, None)"
proof -
  define m3 where "m3 = json_string ''raw_report'' @ '':'' @ json_string (cir_RawReport r) @ ''}''"
  define m2 where "m2 = json_string ''mime_type'' @ '':'' @ json_string (cir_MimeType r) @ '','' @ m3"
  define m1 where "m1 = json_string ''registration_uuid'' @ '':''
                          @ json_string (cir_RegistrationUUID r) @ '','' @ m2"
  define m0 where "m0 = json_string ''digest'' @ '':'' @ json_string (cir_Digest r) @ '','' @ m1"
  have data: "go_Marshal r = CHR ''{'' # m0"
    by (simp add: go_Marshal_def m0_def m1_def m2_def m3_def)
  obtain n where len: "length (go_Marshal r) = Suc (Suc (Suc (Suc n)))"
    by (simp add: go_Marshal_def json_string_def)
  have names: "''digest'' \<in> field_names" "''registration_uuid'' \<in> field_names"
    "''mime_type'' \<in> field_names" "''raw_report'' \<in> field_names"
    by (simp_all add: field_names_def)
  have sk: "skip_ws m1 = m1" "skip_ws m2 = m2" "skip_ws m3 = m3" "skip_ws m0 = m0"
    by (simp_all add: m0_def m1_def m2_def m3_def json_string_def skip_ws_plain)
  have s3: "members (Suc k) m3 c = Parsed (c \<lparr> cir_RawReport := w \<rparr>)" for k c
    unfolding m3_def using member_last [OF names(4) assms(4)] by (simp add: set_field_def)
  have s2: "members (Suc (Suc k)) m2 c =
              Parsed (c \<lparr> cir_MimeType := m, cir_RawReport := w \<rparr>)" for k c
    unfolding m2_def using member_comma [OF names(3) assms(3)] s3
    by (simp add: set_field_def sk)
  have s1: "members (Suc (Suc (Suc k))) m1 c =
              Parsed (c \<lparr> cir_RegistrationUUID := u, cir_MimeType := m, cir_RawReport := w \<rparr>)"
    for k c
    unfolding m1_def using member_comma [OF names(2) assms(2)] s2
    by (simp add: set_field_def sk)
  have s0: "members (Suc (Suc (Suc (Suc k)))) m0 c =
              Parsed (c \<lparr> cir_Digest := d, cir_RegistrationUUID := u, cir_MimeType := m,
                          cir_RawReport := w \<rparr>)" for k c
    unfolding m0_def using member_comma [OF names(1) assms(1)] s1
    by (simp add: set_field_def sk)
  obtain t where t: "m0 = CHR 0x22 # t" by (simp add: m0_def json_string_def)
  have "go_Unmarshal (CHR ''{'' # CHR 0x22 # t) cir =
          (case members (length (CHR ''{'' # CHR 0x22 # t)) (CHR 0x22 # t) cir of
             Parsed cir' \<Rightarrow> Some (cir', None)
           | Invalid \<Rightarrow> Some (cir, Some (New ''invalid JSON''))
           | NotModelled \<Rightarrow> None)"
    by (simp add: go_Unmarshal_def skip_ws_plain del: members.simps)
  then have "go_Unmarshal (go_Marshal r) cir =
          (case members (length (go_Marshal r)) m0 cir of
             Parsed cir' \<Rightarrow> Some (cir', None)
           | Invalid \<Rightarrow> Some (cir, Some (New ''invalid JSON''))
           | NotModelled \<Rightarrow> None)"
    by (simp only: data t)
  then show ?thesis
    using s0 [of n cir] by (simp only: len) simp
qed

lemma go_roundtrip:
  assumes "valid_utf8 (cir_Digest r)" and "valid_utf8 (cir_RegistrationUUID r)"
    and "valid_utf8 (cir_MimeType r)" and "valid_utf8 (cir_RawReport r)"
  shows "go_Unmarshal (go_Marshal r) cir = Some (r, None)"
  using go_Unmarshal_go_Marshal [of r "cir_Digest r" "cir_RegistrationUUID r" "cir_MimeType r"
      "cir_RawReport r" cir] assms
  by (simp add: string_body_escape)

text \<open>The byte FF is written as the escape of U+FFFD, which reads back as three bytes.\<close>

lemma invalid_byte_replaced:
  "string_body (escape_string [CHR 0xFF] @ CHR 0x22 # ys) = Parsed ([CHR 0xEF, CHR 0xBF, CHR 0xBD], ys)"
proof -
  have c: "char_of (239 :: nat) = CHR 0xEF" "char_of (191 :: nat) = CHR 0xBF"
    "char_of (189 :: nat) = CHR 0xBD"
    using char_of_char [of "CHR 0xEF"] char_of_char [of "CHR 0xBF"] char_of_char [of "CHR 0xBD"]
    by simp_all
  show ?thesis
    by (simp add: RuneError_def hex4_def hexval_def EncodeRune_def c)
qed

lemma go_codecs_go_json: "go_json go_codecs"
  by (auto simp add: go_json_def go_codecs_def)

lemma ex_report_valid:
  "valid_utf8 (cir_Digest ex_report)" "valid_utf8 (cir_RegistrationUUID ex_report)"
  "valid_utf8 (cir_MimeType ex_report)" "valid_utf8 (cir_RawReport ex_report)"
  by (simp_all add: ex_report_def RuneError_def cont_def)

text \<open>
  Claim C10, as amended. With the JSON of the standard library, for every report whose
  four fields are well-formed UTF-8 and for every receiver, \<open>ToJSON\<close> succeeds and
  \<open>FromJSON\<close> applied to its string succeeds and yields the report.
\<close>

theorem C10_roundtrip_valid_utf8:
  assumes "go_json env"
    and "valid_utf8 (cir_Digest r)" and "valid_utf8 (cir_RegistrationUUID r)"
    and "valid_utf8 (cir_MimeType r)" and "valid_utf8 (cir_RawReport r)"
  shows "ToJSON env r = (go_Marshal r, None)
       \<and> FromJSON env cir (fst (ToJSON env r)) = (r, None)"
proof -
  have m: "ToJSON env r = (go_Marshal r, None)"
    using assms(1) by (simp add: ToJSON_def go_json_def)
  have n: "length (go_Marshal r) \<noteq> 0"
    by (simp add: go_Marshal_def)
  have u: "json_Unmarshal_cir env (go_Marshal r) cir = (r, None)"
    using assms(1) go_roundtrip [OF assms(2-5), of cir] by (simp add: go_json_def)
  show ?thesis using m n u by (simp add: FromJSON_def)
qed

text \<open>
  The theorem at work on a report with escapes and multi-byte sequences.
\<close>

theorem C10_roundtrip_valid_utf8_witness:
  "go_json go_codecs
   \<and> valid_utf8 (cir_RawReport ex_report)
   \<and> FromJSON go_codecs empty_report (fst (ToJSON go_codecs ex_report)) = (ex_report, None)"
  using C10_roundtrip_valid_utf8 [OF go_codecs_go_json ex_report_valid, of empty_report]
    go_codecs_go_json ex_report_valid(4)
  by blast

text \<open>
  Claim C10 as written covers every report. A raw report that is the byte FF is
  marshalled as the escape of U+FFFD and comes back as the three bytes EF BF BD.
\<close>

theorem C10_counterexample:
  "FromJSON go_codecs empty_report (fst (ToJSON go_codecs bad_report)) =
     (bad_report \<lparr> cir_RawReport := [CHR 0xEF, CHR 0xBF, CHR 0xBD] \<rparr>, None)
   \<and> cir_RawReport bad_report = [CHR 0xFF]"
proof -
  have f: "cir_Digest bad_report = cir_Digest ex_report"
    "cir_RegistrationUUID bad_report = cir_RegistrationUUID ex_report"
    "cir_MimeType bad_report = cir_MimeType ex_report"
    "cir_RawReport bad_report = [CHR 0xFF]"
    by (simp_all add: bad_report_def)
  have u: "go_Unmarshal (go_Marshal bad_report) empty_report =
             Some (\<lparr> cir_Digest = cir_Digest ex_report,
                      cir_RegistrationUUID = cir_RegistrationUUID ex_report,
                      cir_MimeType = cir_MimeType ex_report,
                      cir_RawReport = [CHR 0xEF, CHR 0xBF, CHR 0xBD] \<rparr>, None)"
    by (rule go_Unmarshal_go_Marshal)
       (simp_all only: f string_body_escape [OF ex_report_valid(1)]
          string_body_escape [OF ex_report_valid(2)] string_body_escape [OF ex_report_valid(3)]
          invalid_byte_replaced)
  have n: "length (go_Marshal bad_report) \<noteq> 0"
    by (simp add: go_Marshal_def)
  have e: "\<lparr> cir_Digest = cir_Digest ex_report,
                      cir_RegistrationUUID = cir_RegistrationUUID ex_report,
                      cir_MimeType = cir_MimeType ex_report,
                      cir_RawReport = [CHR 0xEF, CHR 0xBF, CHR 0xBD] \<rparr>
           = bad_report \<lparr> cir_RawReport := [CHR 0xEF, CHR 0xBF, CHR 0xBD] \<rparr>"
    by (simp add: bad_report_def)
  show ?thesis
    using u n f(4) by (simp add: FromJSON_def ToJSON_def go_codecs_def e)
qed

end
